theory Spec2Isabelle
  imports Main "HOL-Library.AList" "HOL-Library.Sublist"
begin

section \<open>Data model\<close>

text \<open>
  The TypeScript interfaces become records, their string-literal unions become datatypes
  and every optional field \<open>f?: T\<close> becomes a \<open>T option\<close> (\<open>None\<close> is \<open>undefined\<close>).
  Record fields carry a prefix, because a field is a constant of the theory and the
  interfaces share names (\<open>status\<close>, \<open>timestamp\<close>, \<open>error\<close>, \<open>id\<close>).
  JavaScript numbers are carried as \<open>int\<close>: the code only passes them on, compares them
  with \<open>undefined\<close> or tests their truthiness. Timestamps (\<open>toISOString\<close>) are the
  millisecond clock value they print.
\<close>

type_synonym blob = "nat list"

datatype job_status = Pending | Running | Completed | Failed

datatype result_status = Success | Fail

datatype deviceType = Desktop | Mobile | Tablet

datatype browserType = Chromium | Firefox | Webkit

datatype action_type = Click | FillT | Wait | ScreenshotT | Goto | Scroll | Expect

text \<open>\<open>getByText?: string | { text: string; exact?: boolean }\<close>\<close>

datatype text_locator = TextString string | TextObject string "bool option"

record action =
  a_type :: action_type
  a_selector :: "string option"
  a_getByLabel :: "string option"
  a_getByText :: "text_locator option"
  a_getByName :: "string option"
  a_text :: "string option"
  a_timeout :: "int option"
  a_url :: "string option"
  a_x :: "int option"
  a_y :: "int option"
  a_toContainText :: "string option"

record viewport =
  vp_width :: int
  vp_height :: int

record job_options =
  opt_timeout :: "int option"
  opt_viewport :: "viewport option"
  opt_userAgent :: "string option"
  opt_generateTrace :: "bool option"

record JobConfig =
  cfg_deviceType :: deviceType
  cfg_browserType :: browserType
  cfg_actions :: "action list"
  cfg_options :: "job_options option"

record statistics =
  st_loadTime :: int
  st_domContentLoaded :: int
  st_networkRequests :: nat
  st_totalBytes :: nat
  st_screenshots :: "string list"
  st_finalUrl :: string

record error_block =
  err_message :: string
  err_stack :: "string option"
  err_screenshot :: "string option"

record trace_step =
  step_action :: string
  step_timestamp :: int
  step_duration :: int
  step_success :: bool
  step_error :: "string option"
  step_screenshot :: "string option"

record trace_block =
  tr_steps :: "trace_step list"
  tr_traceFile :: "string option"
  tr_traceViewerUrl :: "string option"

record JobResult =
  res_status :: result_status
  res_duration :: int
  res_timestamp :: int
  res_statistics :: "statistics option"
  res_error :: "error_block option"
  res_trace :: "trace_block option"

record Job =
  job_id :: string
  job_status :: job_status
  job_createdAt :: int
  job_completedAt :: "int option"
  job_config :: JobConfig
  job_result :: "JobResult option"

subsection \<open>JavaScript truthiness of the optional fields\<close>

text \<open>
  \<open>if (action.getByLabel)\<close> tests truthiness, not presence: \<open>undefined\<close> and the empty
  string are falsy, an object is always truthy, a number is falsy when it is \<open>0\<close>.
\<close>

fun truthy_str :: "string option \<Rightarrow> bool" where
  "truthy_str None = False"
| "truthy_str (Some s) = (s \<noteq> [])"

fun truthy_text :: "text_locator option \<Rightarrow> bool" where
  "truthy_text None = False"
| "truthy_text (Some (TextString s)) = (s \<noteq> [])"
| "truthy_text (Some (TextObject t ex)) = True"

fun truthy_num :: "int option \<Rightarrow> bool" where
  "truthy_num None = False"
| "truthy_num (Some n) = (n \<noteq> 0)"

fun truthy_bool :: "bool option \<Rightarrow> bool" where
  "truthy_bool None = False"
| "truthy_bool (Some b) = b"

subsection \<open>Validation schema and device table\<close>

text \<open>
  \<open>actionSchema\<close>: every field is optional and unconstrained except \<open>timeout\<close>
  (\<open>min(0).max(60000)\<close>) and \<open>url\<close> (\<open>z.string().url()\<close>). What zod accepts as a URL is
  the parameter \<open>is_url\<close>. Note that \<open>z.string()\<close> accepts the empty string.
\<close>

definition actionSchema :: "(string \<Rightarrow> bool) \<Rightarrow> action \<Rightarrow> bool" where
  "actionSchema is_url a =
     ((case a_timeout a of None \<Rightarrow> True | Some t \<Rightarrow> 0 \<le> t \<and> t \<le> 60000) \<and>
      (case a_url a of None \<Rightarrow> True | Some u \<Rightarrow> is_url u))"

definition optionsSchema :: "job_options \<Rightarrow> bool" where
  "optionsSchema opts =
     ((case opt_timeout opts of None \<Rightarrow> True | Some t \<Rightarrow> 1000 \<le> t \<and> t \<le> 300000) \<and>
      (case opt_viewport opts of None \<Rightarrow> True
       | Some v \<Rightarrow> 320 \<le> vp_width v \<and> vp_width v \<le> 1920 \<and>
                  240 \<le> vp_height v \<and> vp_height v \<le> 1080))"

definition jobConfigSchema :: "(string \<Rightarrow> bool) \<Rightarrow> JobConfig \<Rightarrow> bool" where
  "jobConfigSchema is_url c =
     (1 \<le> length (cfg_actions c) \<and> length (cfg_actions c) \<le> 50 \<and>
      list_all (actionSchema is_url) (cfg_actions c) \<and>
      (case cfg_options c of None \<Rightarrow> True | Some opts \<Rightarrow> optionsSchema opts))"

definition device_viewport :: "deviceType \<Rightarrow> viewport" where
  "device_viewport d =
     (case d of
        Desktop \<Rightarrow> \<lparr>vp_width = 1920, vp_height = 1080\<rparr>
      | Mobile \<Rightarrow> \<lparr>vp_width = 375, vp_height = 667\<rparr>
      | Tablet \<Rightarrow> \<lparr>vp_width = 768, vp_height = 1024\<rparr>)"

definition device_userAgent :: "deviceType \<Rightarrow> string" where
  "device_userAgent d =
     (case d of
        Desktop \<Rightarrow> ''Mozilla/5.0 (Windows NT 10.0; Win64; x64) AppleWebKit/537.36 (KHTML, like Gecko) Chrome/120.0.0.0 Safari/537.36''
      | Mobile \<Rightarrow> ''Mozilla/5.0 (iPhone; CPU iPhone OS 17_0 like Mac OS X) AppleWebKit/605.1.15 (KHTML, like Gecko) Version/17.0 Mobile/15E148 Safari/604.1''
      | Tablet \<Rightarrow> ''Mozilla/5.0 (iPad; CPU OS 17_0 like Mac OS X) AppleWebKit/605.1.15 (KHTML, like Gecko) Version/17.0 Mobile/15E148 Safari/604.1'')"

section \<open>The world outside the worker\<close>

text \<open>
  What the code throws and catches. \<open>error instanceof Error\<close> is the constructor test;
  an \<open>Error\<close> has a name, a message and a stack.
\<close>

datatype thrown = ErrorObj string string "string option" | NonError

fun error_message :: "thrown \<Rightarrow> string option" where
  "error_message (ErrorObj n m st) = Some m"
| "error_message NonError = None"

fun error_stack :: "thrown \<Rightarrow> string option" where
  "error_stack (ErrorObj n m st) = st"
| "error_stack NonError = None"

text \<open>\<open>error instanceof Error ? error.message : d\<close>\<close>

fun message_or :: "string \<Rightarrow> thrown \<Rightarrow> string" where
  "message_or d (ErrorObj n m st) = m"
| "message_or d NonError = d"

text \<open>A Playwright locator, as \<open>getLocator\<close> builds it.\<close>

datatype locator =
    ByLabel string
  | ByText string "bool option"
  | ByRole string string
  | Css string

datatype kv_ns = JOBS_KV | ARTIFACTS_KV

text \<open>
  Every awaited call on the browser binding, the page, the file system and the two KV
  namespaces. The locator calls that go through \<open>.first()\<close> say so in their name.
\<close>

datatype call =
    Launch
  | NewPage viewport string
  | TracingStart
  | SetDefaultTimeout int
  | PageGoto string
  | WaitForLoadState
  | FirstClick locator "int option"
  | MouseClick int int
  | LocatorFill locator string "int option"
  | FirstScrollIntoViewIfNeeded locator
  | MouseWheel int int
  | WaitForTimeout int
  | ExpectFirstToContainText locator string
  | PageScreenshot
  | TracingStop string
  | BrowserClose
  | ReadFile string
  | KvPut kv_ns string
  | KvGet kv_ns string
  | KvDelete kv_ns string
  | KvList kv_ns string

text \<open>
  The environment decides how each external call ends. It is indexed by \<open>tick\<close>, the
  number of external interactions made so far, so the same call may succeed once and fail
  later. \<open>eff\<close> says whether a call throws; \<open>shot\<close> is what \<open>page.screenshot\<close> gives;
  \<open>uuid\<close> is \<open>crypto.randomUUID()\<close>; \<open>clock\<close> is \<open>Date.now()\<close>; \<open>trace_zip\<close> is what
  \<open>tracing.stop\<close> writes; \<open>page_url\<close> is \<open>page.url()\<close>; \<open>net_requests\<close> and \<open>net_bytes\<close>
  are the counters that the \<open>request\<close> and \<open>response\<close> callbacks have accumulated;
  \<open>js_stack\<close> is the stack the engine attaches to an error it raises itself.
\<close>

record env =
  eff :: "nat \<Rightarrow> call \<Rightarrow> thrown option"
  shot :: "nat \<Rightarrow> thrown + blob"
  uuid :: "nat \<Rightarrow> string"
  clock :: "nat \<Rightarrow> int"
  trace_zip :: "nat \<Rightarrow> blob"
  page_url :: "nat \<Rightarrow> string"
  net_requests :: "nat \<Rightarrow> nat"
  net_bytes :: "nat \<Rightarrow> nat"
  js_stack :: "nat \<Rightarrow> string option"

text \<open>
  A KV namespace is an association list from keys to values; \<open>put\<close> overwrites
  (last write wins), \<open>list\<close> returns the keys with a prefix. Expiry is not modelled.
\<close>

type_synonym 'v kv = "(string \<times> 'v) list"

record world =
  tick :: nat
  artifacts :: "blob kv"
  files :: "blob kv"
  calls :: "call list"

subsection \<open>Computations that may throw\<close>

type_synonym ('a, 's) prog = "'s \<Rightarrow> (thrown + 'a) \<times> 's"

definition ret :: "'a \<Rightarrow> ('a, 's) prog" where
  "ret v s = (Inr v, s)"

definition throw :: "thrown \<Rightarrow> ('a, 's) prog" where
  "throw t s = (Inl t, s)"

definition bnd :: "('a, 's) prog \<Rightarrow> ('a \<Rightarrow> ('b, 's) prog) \<Rightarrow> ('b, 's) prog" where
  "bnd m f s = (case m s of (Inl t, s') \<Rightarrow> (Inl t, s') | (Inr v, s') \<Rightarrow> f v s')"

definition try_catch :: "('a, 's) prog \<Rightarrow> (thrown \<Rightarrow> ('a, 's) prog) \<Rightarrow> ('a, 's) prog" where
  "try_catch m h s = (case m s of (Inl t, s') \<Rightarrow> h t s' | (Inr v, s') \<Rightarrow> (Inr v, s'))"

text \<open>\<open>promise.catch(() => d)\<close>: a rejection becomes the value \<open>d\<close>.\<close>

definition catch_value :: "('a, 's) prog \<Rightarrow> 'a \<Rightarrow> ('a, 's) prog" where
  "catch_value m d s = (case m s of (Inl t, s') \<Rightarrow> (Inr d, s') | (Inr v, s') \<Rightarrow> (Inr v, s'))"

subsection \<open>External calls\<close>

definition logged :: "call \<Rightarrow> 'z world_scheme \<Rightarrow> 'z world_scheme" where
  "logged c s = s\<lparr>tick := Suc (tick s), calls := calls s @ [c]\<rparr>"

definition call_ext :: "env \<Rightarrow> call \<Rightarrow> (unit, 'z world_scheme) prog" where
  "call_ext e c s =
     (case eff e (tick s) c of
        None \<Rightarrow> (Inr (), logged c s)
      | Some t \<Rightarrow> (Inl t, logged c s))"

definition page_screenshot :: "env \<Rightarrow> (blob, 'z world_scheme) prog" where
  "page_screenshot e s = (shot e (tick s), logged PageScreenshot s)"

definition randomUUID :: "env \<Rightarrow> (string, 'z world_scheme) prog" where
  "randomUUID e s = (Inr (uuid e (tick s)), s\<lparr>tick := Suc (tick s)\<rparr>)"

definition date_now :: "env \<Rightarrow> (int, 'z world_scheme) prog" where
  "date_now e s = (Inr (clock e (tick s)), s\<lparr>tick := Suc (tick s)\<rparr>)"

definition artifacts_put :: "env \<Rightarrow> string \<Rightarrow> blob \<Rightarrow> (unit, 'z world_scheme) prog" where
  "artifacts_put e key v s =
     (case eff e (tick s) (KvPut ARTIFACTS_KV key) of
        None \<Rightarrow> (Inr (), (logged (KvPut ARTIFACTS_KV key) s)
                           \<lparr>artifacts := AList.update key v (artifacts s)\<rparr>)
      | Some t \<Rightarrow> (Inl t, logged (KvPut ARTIFACTS_KV key) s))"

definition artifacts_get :: "env \<Rightarrow> string \<Rightarrow> (blob option, 'z world_scheme) prog" where
  "artifacts_get e key s =
     (case eff e (tick s) (KvGet ARTIFACTS_KV key) of
        None \<Rightarrow> (Inr (map_of (artifacts s) key), logged (KvGet ARTIFACTS_KV key) s)
      | Some t \<Rightarrow> (Inl t, logged (KvGet ARTIFACTS_KV key) s))"

definition artifacts_delete :: "env \<Rightarrow> string \<Rightarrow> (unit, 'z world_scheme) prog" where
  "artifacts_delete e key s =
     (case eff e (tick s) (KvDelete ARTIFACTS_KV key) of
        None \<Rightarrow> (Inr (), (logged (KvDelete ARTIFACTS_KV key) s)
                           \<lparr>artifacts := AList.delete key (artifacts s)\<rparr>)
      | Some t \<Rightarrow> (Inl t, logged (KvDelete ARTIFACTS_KV key) s))"

definition artifacts_list :: "env \<Rightarrow> string \<Rightarrow> (string list, 'z world_scheme) prog" where
  "artifacts_list e pre s =
     (case eff e (tick s) (KvList ARTIFACTS_KV pre) of
        None \<Rightarrow> (Inr (filter (prefix pre) (map fst (artifacts s))),
                 logged (KvList ARTIFACTS_KV pre) s)
      | Some t \<Rightarrow> (Inl t, logged (KvList ARTIFACTS_KV pre) s))"


section \<open>Artifact keys and helpers\<close>

definition screenshot_key :: "string \<Rightarrow> string \<Rightarrow> string" where
  "screenshot_key jobId screenshotId = ''screenshot:'' @ jobId @ '':'' @ screenshotId @ ''.png''"

definition trace_key :: "string \<Rightarrow> string" where
  "trace_key jobId = ''trace:'' @ jobId"

definition job_key :: "string \<Rightarrow> string" where
  "job_key jobId = ''job:'' @ jobId"

text \<open>The reference path that the runner hands to the client for a stored screenshot.\<close>

definition screenshot_path :: "string \<Rightarrow> string \<Rightarrow> string" where
  "screenshot_path jobId screenshotId =
     ''/api/v1/jobs/'' @ jobId @ ''/screenshots/'' @ screenshotId @ ''.png''"

definition traceViewerUrl :: "string \<Rightarrow> string" where
  "traceViewerUrl jobId =
     ''https://trace.playwright.dev/?trace=https://ghost-playwright.rakhimd.workers.dev/api/v1/jobs/''
       @ jobId @ ''/trace''"

definition storeScreenshot ::
  "env \<Rightarrow> string \<Rightarrow> string \<Rightarrow> blob \<Rightarrow> (string, 'z world_scheme) prog" where
  "storeScreenshot e jobId screenshotId imageData =
     bnd (artifacts_put e (screenshot_key jobId screenshotId) imageData)
       (\<lambda>_. ret (screenshot_key jobId screenshotId))"

definition storeTrace :: "env \<Rightarrow> string \<Rightarrow> blob \<Rightarrow> (string, 'z world_scheme) prog" where
  "storeTrace e jobId traceData =
     bnd (artifacts_put e (trace_key jobId) traceData) (\<lambda>_. ret (trace_key jobId))"

text \<open>The value of a field when it is truthy.\<close>

fun truthy_val :: "string option \<Rightarrow> string option" where
  "truthy_val None = None"
| "truthy_val (Some s) = (if s = [] then None else Some s)"

text \<open>
  \<open>getLocator\<close>: the first truthy field in the order getByLabel, getByText, getByName,
  selector; \<open>null\<close> (here \<open>None\<close>) when there is none.
\<close>

definition getLocator :: "action \<Rightarrow> locator option" where
  "getLocator a =
     (case truthy_val (a_getByLabel a) of
        Some l \<Rightarrow> Some (ByLabel l)
      | None \<Rightarrow>
         (if truthy_text (a_getByText a) then
            (case a_getByText a of
               Some (TextString s) \<Rightarrow> Some (ByText s None)
             | Some (TextObject t ex) \<Rightarrow> Some (ByText t ex)
             | None \<Rightarrow> None)
          else
            (case truthy_val (a_getByName a) of
               Some n \<Rightarrow> Some (ByRole ''textbox'' n)
             | None \<Rightarrow>
                (case truthy_val (a_selector a) of
                   Some c \<Rightarrow> Some (Css c)
                 | None \<Rightarrow> None))))"

definition dq :: string where
  "dq = [CHR 0x22]"

definition sq :: string where
  "sq = [CHR 0x27]"

definition type_name :: "action_type \<Rightarrow> string" where
  "type_name t =
     (case t of Click \<Rightarrow> ''click'' | FillT \<Rightarrow> ''fill'' | Wait \<Rightarrow> ''wait''
      | ScreenshotT \<Rightarrow> ''screenshot'' | Goto \<Rightarrow> ''goto'' | Scroll \<Rightarrow> ''scroll''
      | Expect \<Rightarrow> ''expect'')"

definition locatorDesc :: "action \<Rightarrow> string" where
  "locatorDesc a =
     (case truthy_val (a_getByLabel a) of
        Some l \<Rightarrow> ''getByLabel('' @ dq @ l @ dq @ '')''
      | None \<Rightarrow>
         (if truthy_text (a_getByText a) then
            (case a_getByText a of
               Some (TextString s) \<Rightarrow> ''getByText('' @ dq @ s @ dq @ '')''
             | Some (TextObject t ex) \<Rightarrow> ''getByText('' @ dq @ t @ dq @ '')''
             | None \<Rightarrow> [])
          else
            (case truthy_val (a_getByName a) of
               Some n \<Rightarrow> ''getByName('' @ dq @ n @ dq @ '')''
             | None \<Rightarrow>
                (case truthy_val (a_selector a) of
                   Some c \<Rightarrow> ''locator('' @ dq @ c @ dq @ '')''
                 | None \<Rightarrow> []))))"

definition getActionDescription :: "action \<Rightarrow> string" where
  "getActionDescription a =
     (let actionDesc =
            type_name (a_type a)
            @ (case truthy_val (a_text a) of Some t \<Rightarrow> '' '' @ dq @ t @ dq | None \<Rightarrow> [])
            @ (case truthy_val (a_url a) of Some u \<Rightarrow> '' '' @ u | None \<Rightarrow> [])
      in if locatorDesc a \<noteq> [] then actionDesc @ '' on '' @ locatorDesc a else actionDesc)"

section \<open>The job runner: executePlaywrightSequence\<close>

text \<open>
  The locals that outlive a \<open>throw\<close> (the \<open>trace\<close> object, the \<open>screenshots\<close> array, the
  \<open>browser\<close> and \<open>page\<close> variables, here whether they are assigned, and the two timing
  variables) extend the world.
\<close>

record rstate = world +
  r_trace :: trace_block
  r_screenshots :: "string list"
  r_browser :: bool
  r_page :: bool
  r_loadTime :: int
  r_domContentLoaded :: int

definition modify :: "('s \<Rightarrow> 's) \<Rightarrow> (unit, 's) prog" where
  "modify f s = (Inr (), f s)"

definition push_step :: "trace_step \<Rightarrow> (unit, rstate) prog" where
  "push_step st = modify (\<lambda>s. s\<lparr>r_trace := (r_trace s)\<lparr>tr_steps := tr_steps (r_trace s) @ [st]\<rparr>\<rparr>)"

text \<open>What the engine raises for \<open>getLocator(page, action).first()\<close> on \<open>null\<close>.\<close>

definition null_first_message :: string where
  "null_first_message = ''Cannot read properties of null (reading '' @ sq @ ''first'' @ sq @ '')''"

definition null_first_error :: "env \<Rightarrow> (unit, 'z world_scheme) prog" where
  "null_first_error e s =
     (Inl (ErrorObj ''TypeError'' null_first_message (js_stack e (tick s))), s)"

text \<open>The \<open>switch (action.type)\<close> of the loop body.\<close>

definition exec_action :: "env \<Rightarrow> string \<Rightarrow> action \<Rightarrow> int option \<Rightarrow> (unit, rstate) prog" where
  "exec_action e jobId a navigationStart =
     (case a_type a of
        Goto \<Rightarrow>
          (case truthy_val (a_url a) of
             None \<Rightarrow> ret ()
           | Some u \<Rightarrow>
               bnd (call_ext e (PageGoto u)) (\<lambda>_.
                 if truthy_num navigationStart then
                   bnd (date_now e) (\<lambda>t1.
                   bnd (modify (\<lambda>s. s\<lparr>r_domContentLoaded :=
                          t1 - (case navigationStart of Some n \<Rightarrow> n | None \<Rightarrow> 0)\<rparr>)) (\<lambda>_.
                   bnd (call_ext e WaitForLoadState) (\<lambda>_.
                   bnd (date_now e) (\<lambda>t2.
                   modify (\<lambda>s. s\<lparr>r_loadTime :=
                          t2 - (case navigationStart of Some n \<Rightarrow> n | None \<Rightarrow> 0)\<rparr>)))))
                 else ret ()))
      | Click \<Rightarrow>
          (case getLocator a of
             Some clickLocator \<Rightarrow> call_ext e (FirstClick clickLocator (a_timeout a))
           | None \<Rightarrow>
              (case (a_x a, a_y a) of
                 (Some x, Some y) \<Rightarrow> call_ext e (MouseClick x y)
               | _ \<Rightarrow> ret ()))
      | FillT \<Rightarrow>
          (case (getLocator a, truthy_val (a_text a)) of
             (Some fillLocator, Some t) \<Rightarrow> call_ext e (LocatorFill fillLocator t (a_timeout a))
           | _ \<Rightarrow> ret ())
      | Scroll \<Rightarrow>
          (case getLocator a of
             Some scrollLocator \<Rightarrow> call_ext e (FirstScrollIntoViewIfNeeded scrollLocator)
           | None \<Rightarrow>
              (case (a_x a, a_y a) of
                 (Some x, Some y) \<Rightarrow> call_ext e (MouseWheel x y)
               | _ \<Rightarrow> ret ()))
      | Wait \<Rightarrow>
          call_ext e (WaitForTimeout
            (case a_timeout a of Some t \<Rightarrow> if t \<noteq> 0 then t else 1000 | None \<Rightarrow> 1000))
      | Expect \<Rightarrow>
          (case truthy_val (a_toContainText a) of
             None \<Rightarrow> ret ()
           | Some txt \<Rightarrow>
              (case getLocator a of
                 None \<Rightarrow> null_first_error e
               | Some assertionLocator \<Rightarrow>
                   call_ext e (ExpectFirstToContainText assertionLocator txt)))
      | ScreenshotT \<Rightarrow>
          bnd (page_screenshot e) (\<lambda>screenshotBuffer.
          bnd (randomUUID e) (\<lambda>screenshotId.
          bnd (storeScreenshot e jobId screenshotId screenshotBuffer) (\<lambda>_.
          modify (\<lambda>s. s\<lparr>r_screenshots :=
                    r_screenshots s @ [screenshot_path jobId screenshotId]\<rparr>)))))"

text \<open>
  The per-step \<open>catch\<close> block: a diagnostic screenshot (\<open>.catch(() => null)\<close>), stored
  when there is one, then the failed trace step, then \<open>throw error\<close>.
\<close>

definition step_failed :: "env \<Rightarrow> string \<Rightarrow> action \<Rightarrow> int \<Rightarrow> thrown \<Rightarrow> (unit, rstate) prog" where
  "step_failed e jobId a stepStart error =
     bnd (date_now e) (\<lambda>t.
     bnd (catch_value (bnd (page_screenshot e) (\<lambda>b. ret (Some b))) None) (\<lambda>errorScreenshotBuffer.
     bnd (case errorScreenshotBuffer of
            Some b \<Rightarrow>
              bnd (randomUUID e) (\<lambda>screenshotId.
              bnd (storeScreenshot e jobId screenshotId b) (\<lambda>_.
              ret (Some (screenshot_path jobId screenshotId))))
          | None \<Rightarrow> ret None) (\<lambda>errorScreenshot.
     bnd (date_now e) (\<lambda>ts.
     bnd (push_step \<lparr>step_action = getActionDescription a, step_timestamp = ts,
                     step_duration = t - stepStart, step_success = False,
                     step_error = Some (message_or ''Unknown error'' error),
                     step_screenshot = truthy_val errorScreenshot\<rparr>) (\<lambda>_.
     throw error)))))"

text \<open>One iteration of the \<open>for\<close> loop.\<close>

definition run_step :: "env \<Rightarrow> string \<Rightarrow> action \<Rightarrow> (unit, rstate) prog" where
  "run_step e jobId a =
     bnd (date_now e) (\<lambda>stepStart.
     bnd (if a_type a = Goto then bnd (date_now e) (\<lambda>t. ret (Some t)) else ret None)
       (\<lambda>navigationStart.
     try_catch
       (bnd (exec_action e jobId a navigationStart) (\<lambda>_.
        bnd (date_now e) (\<lambda>t.
        bnd (date_now e) (\<lambda>ts.
        push_step \<lparr>step_action = getActionDescription a, step_timestamp = ts,
                   step_duration = t - stepStart, step_success = True,
                   step_error = None, step_screenshot = None\<rparr>))))
       (step_failed e jobId a stepStart)))"

fun run_actions :: "env \<Rightarrow> string \<Rightarrow> action list \<Rightarrow> (unit, rstate) prog" where
  "run_actions e jobId [] s = (Inr (), s)"
| "run_actions e jobId (a # as) s =
     (case run_step e jobId a s of
        (Inl t, s') \<Rightarrow> (Inl t, s')
      | (Inr u, s') \<Rightarrow> run_actions e jobId as s')"


text \<open>\<open>tracing.stop({ path })\<close> writes the bundle to the file system of the worker.\<close>

definition tracing_stop :: "env \<Rightarrow> string \<Rightarrow> (unit, 'z world_scheme) prog" where
  "tracing_stop e path s =
     (case eff e (tick s) (TracingStop path) of
        None \<Rightarrow> (Inr (), (logged (TracingStop path) s)
                           \<lparr>files := AList.update path (trace_zip e (tick s)) (files s)\<rparr>)
      | Some t \<Rightarrow> (Inl t, logged (TracingStop path) s))"

definition readFile :: "env \<Rightarrow> string \<Rightarrow> (blob, 'z world_scheme) prog" where
  "readFile e path s =
     (case eff e (tick s) (ReadFile path) of
        Some t \<Rightarrow> (Inl t, logged (ReadFile path) s)
      | None \<Rightarrow>
         (case map_of (files s) path of
            Some b \<Rightarrow> (Inr b, logged (ReadFile path) s)
          | None \<Rightarrow> (Inl (ErrorObj ''Error'' (''ENOENT: no such file or directory, open ''
                                               @ sq @ path @ sq) (js_stack e (tick s))),
                     logged (ReadFile path) s)))"

definition get_page_url :: "env \<Rightarrow> (string, 'z world_scheme) prog" where
  "get_page_url e s = (Inr (page_url e (tick s)), s\<lparr>tick := Suc (tick s)\<rparr>)"

text \<open>\<open>config.options?.f\<close>\<close>

definition generateTrace :: "JobConfig \<Rightarrow> bool" where
  "generateTrace config =
     (case cfg_options config of None \<Rightarrow> False | Some opts \<Rightarrow> truthy_bool (opt_generateTrace opts))"

definition page_viewport :: "JobConfig \<Rightarrow> viewport" where
  "page_viewport config =
     (case cfg_options config of
        None \<Rightarrow> device_viewport (cfg_deviceType config)
      | Some opts \<Rightarrow>
         (case opt_viewport opts of
            Some v \<Rightarrow> v
          | None \<Rightarrow> device_viewport (cfg_deviceType config)))"

definition page_userAgent :: "JobConfig \<Rightarrow> string" where
  "page_userAgent config =
     (case cfg_options config of
        None \<Rightarrow> device_userAgent (cfg_deviceType config)
      | Some opts \<Rightarrow>
         (case truthy_val (opt_userAgent opts) of
            Some u \<Rightarrow> u
          | None \<Rightarrow> device_userAgent (cfg_deviceType config)))"

definition default_timeout :: "JobConfig \<Rightarrow> int" where
  "default_timeout config =
     (case cfg_options config of
        None \<Rightarrow> 30000
      | Some opts \<Rightarrow>
         (case opt_timeout opts of
            Some t \<Rightarrow> if t \<noteq> 0 then t else 30000
          | None \<Rightarrow> 30000))"

text \<open>
  After the loop, still inside the outer \<open>try\<close>: stop the trace, close the browser with
  a plain \<open>await browser.close()\<close>, store the trace, build the success result.
\<close>

definition finish :: "env \<Rightarrow> string \<Rightarrow> JobConfig \<Rightarrow> int \<Rightarrow> (JobResult, rstate) prog" where
  "finish e jobId config startTime =
     bnd (if generateTrace config then tracing_stop e ''trace.zip'' else ret ()) (\<lambda>_.
     bnd (get_page_url e) (\<lambda>finalUrl.
     bnd (date_now e) (\<lambda>t.
     bnd (call_ext e BrowserClose) (\<lambda>_.
     bnd (if generateTrace config then
            bnd (readFile e ''trace.zip'') (\<lambda>file.
            bnd (storeTrace e jobId file) (\<lambda>_.
            modify (\<lambda>s. s\<lparr>r_trace := (r_trace s)\<lparr>tr_traceViewerUrl :=
                                         Some (traceViewerUrl jobId)\<rparr>\<rparr>)))
          else ret ()) (\<lambda>_.
     bnd (date_now e) (\<lambda>ts s.
       (Inr \<lparr>res_status = Success, res_duration = t - startTime, res_timestamp = ts,
             res_statistics = Some
               \<lparr>st_loadTime = r_loadTime s, st_domContentLoaded = r_domContentLoaded s,
                st_networkRequests = net_requests e (tick s), st_totalBytes = net_bytes e (tick s),
                st_screenshots = r_screenshots s, st_finalUrl = finalUrl\<rparr>,
             res_error = None, res_trace = Some (r_trace s)\<rparr>, s)))))))"

text \<open>
  The outer \<open>catch\<close>: a second diagnostic screenshot inside its own \<open>try\<close>, then
  \<open>browser.close().catch(() => { })\<close>, then the fail result.
\<close>

definition on_failure :: "env \<Rightarrow> string \<Rightarrow> int \<Rightarrow> thrown \<Rightarrow> (JobResult, rstate) prog" where
  "on_failure e jobId startTime error =
     bnd (date_now e) (\<lambda>t.
     bnd (try_catch
            (\<lambda>s. if r_page s then
                    bnd (page_screenshot e) (\<lambda>screenshotBuffer.
                    bnd (randomUUID e) (\<lambda>screenshotId.
                    bnd (storeScreenshot e jobId screenshotId screenshotBuffer) (\<lambda>_.
                    ret (Some (screenshot_path jobId screenshotId))))) s
                  else (Inr None, s))
            (\<lambda>screenshotError. ret None)) (\<lambda>errorScreenshot.
     bnd (\<lambda>s. if r_browser s then catch_value (call_ext e BrowserClose) () s else (Inr (), s)) (\<lambda>_.
     bnd (date_now e) (\<lambda>ts s.
       (Inr \<lparr>res_status = Fail, res_duration = t - startTime, res_timestamp = ts,
             res_statistics = None,
             res_error = Some \<lparr>err_message = message_or ''Unknown error'' error,
                                err_stack = error_stack error,
                                err_screenshot = errorScreenshot\<rparr>,
             res_trace = Some (r_trace s)\<rparr>, s)))))"

definition sequence_body :: "env \<Rightarrow> string \<Rightarrow> JobConfig \<Rightarrow> (JobResult, rstate) prog" where
  "sequence_body e jobId config =
     bnd (date_now e) (\<lambda>startTime.
     try_catch
       (bnd (call_ext e Launch) (\<lambda>_.
        bnd (modify (\<lambda>s. s\<lparr>r_browser := True\<rparr>)) (\<lambda>_.
        bnd (call_ext e (NewPage (page_viewport config) (page_userAgent config))) (\<lambda>_.
        bnd (modify (\<lambda>s. s\<lparr>r_page := True\<rparr>)) (\<lambda>_.
        bnd (if generateTrace config then call_ext e TracingStart else ret ()) (\<lambda>_.
        bnd (call_ext e (SetDefaultTimeout (default_timeout config))) (\<lambda>_.
        bnd (run_actions e jobId (cfg_actions config)) (\<lambda>_.
        finish e jobId config startTime))))))))
       (on_failure e jobId startTime))"

text \<open>The locals at entry, and the world handed back at exit.\<close>

definition enter :: "'z world_scheme \<Rightarrow> rstate" where
  "enter s =
     \<lparr>tick = tick s, artifacts = artifacts s, files = files s, calls = calls s,
      r_trace = \<lparr>tr_steps = [], tr_traceFile = None, tr_traceViewerUrl = None\<rparr>,
      r_screenshots = [], r_browser = False, r_page = False,
      r_loadTime = 0, r_domContentLoaded = 0\<rparr>"

definition leave :: "'z world_scheme \<Rightarrow> rstate \<Rightarrow> 'z world_scheme" where
  "leave s r = s\<lparr>tick := tick r, artifacts := artifacts r, files := files r, calls := calls r\<rparr>"

definition executePlaywrightSequence ::
  "env \<Rightarrow> string \<Rightarrow> JobConfig \<Rightarrow> (JobResult, 'z world_scheme) prog" where
  "executePlaywrightSequence e jobId config s =
     (case sequence_body e jobId config (enter s) of (r, s') \<Rightarrow> (r, leave s s'))"

section \<open>The job controller: routes\<close>

text \<open>
  The server state is the world plus the job namespace. \<open>job_writes\<close> is a history
  variable: every job snapshot that \<open>storeJob\<close> has persisted, oldest first.
  \<open>JSON.stringify\<close> followed by \<open>JSON.parse\<close> is the identity on a job record.
\<close>

record server = world +
  jobs :: "Job kv"
  job_writes :: "Job list"

definition storeJob :: "env \<Rightarrow> Job \<Rightarrow> (unit, server) prog" where
  "storeJob e job s =
     (case eff e (tick s) (KvPut JOBS_KV (job_key (job_id job))) of
        None \<Rightarrow> (Inr (), (logged (KvPut JOBS_KV (job_key (job_id job))) s)
                           \<lparr>jobs := AList.update (job_key (job_id job)) job (jobs s),
                            job_writes := job_writes s @ [job]\<rparr>)
      | Some t \<Rightarrow> (Inl t, logged (KvPut JOBS_KV (job_key (job_id job))) s))"

definition getJob :: "env \<Rightarrow> string \<Rightarrow> (Job option, server) prog" where
  "getJob e jobId s =
     (case eff e (tick s) (KvGet JOBS_KV (job_key jobId)) of
        None \<Rightarrow> (Inr (map_of (jobs s) (job_key jobId)), logged (KvGet JOBS_KV (job_key jobId)) s)
      | Some t \<Rightarrow> (Inl t, logged (KvGet JOBS_KV (job_key jobId)) s))"

definition jobs_delete :: "env \<Rightarrow> string \<Rightarrow> (unit, server) prog" where
  "jobs_delete e key s =
     (case eff e (tick s) (KvDelete JOBS_KV key) of
        None \<Rightarrow> (Inr (), (logged (KvDelete JOBS_KV key) s)\<lparr>jobs := AList.delete key (jobs s)\<rparr>)
      | Some t \<Rightarrow> (Inl t, logged (KvDelete JOBS_KV key) s))"

text \<open>
  \<open>Promise.all\<close>: every promise of the array runs; the result rejects with the first
  rejection, if any.
\<close>

fun promise_all :: "(unit, 's) prog list \<Rightarrow> (unit, 's) prog" where
  "promise_all [] s = (Inr (), s)"
| "promise_all (p # ps) s =
     (case p s of
        (Inr u, s') \<Rightarrow> promise_all ps s'
      | (Inl t, s') \<Rightarrow> (Inl t, snd (promise_all ps s')))"

datatype body =
    ErrorBody string
  | ErrorMessageBody string "string option"
  | JobBody Job
  | DeletedBody string string
  | SubmittedBody string job_status string
  | BinaryBody blob string

type_synonym response = "nat \<times> body"

text \<open>The background task that \<open>waitUntil\<close> keeps alive after the response.\<close>

definition background_task :: "env \<Rightarrow> Job \<Rightarrow> JobConfig \<Rightarrow> (unit, server) prog" where
  "background_task e job config =
     try_catch
       (bnd (storeJob e (job\<lparr>job_status := Running\<rparr>)) (\<lambda>_.
        bnd (executePlaywrightSequence e (job_id job) config) (\<lambda>result.
        bnd (date_now e) (\<lambda>completedAt.
        storeJob e (job\<lparr>job_status := (if res_status result = Success then Completed else Failed),
                        job_completedAt := Some completedAt,
                        job_result := Some result\<rparr>)))))
       (\<lambda>error.
        bnd (date_now e) (\<lambda>completedAt.
        bnd (date_now e) (\<lambda>ts.
        storeJob e (job\<lparr>job_status := Failed,
                        job_completedAt := Some completedAt,
                        job_result := Some
                          \<lparr>res_status = Fail, res_duration = 0, res_timestamp = ts,
                           res_statistics = None,
                           res_error = Some \<lparr>err_message = message_or ''Test execution failed'' error,
                                              err_stack = error_stack error,
                                              err_screenshot = None\<rparr>,
                           res_trace = None\<rparr>\<rparr>))))"

text \<open>
  \<open>POST /api/v1/jobs\<close> on a validated body. The handler yields the response and the job
  it has handed to \<open>waitUntil\<close>.
\<close>

definition post_job :: "env \<Rightarrow> JobConfig \<Rightarrow> (response \<times> Job, server) prog" where
  "post_job e config =
     bnd (randomUUID e) (\<lambda>jobId.
     bnd (date_now e) (\<lambda>createdAt.
     let job = \<lparr>job_id = jobId, job_status = Pending, job_createdAt = createdAt,
                job_completedAt = None, job_config = config, job_result = None\<rparr>
     in bnd (storeJob e job) (\<lambda>_.
        ret ((202, SubmittedBody jobId Pending ''Test job submitted successfully''), job))))"

text \<open>
  A whole submission: the handler, then the background task run to its end. A rejection
  of the background task is nobody's to catch; the state is what it left.
\<close>

definition submit :: "env \<Rightarrow> JobConfig \<Rightarrow> server \<Rightarrow> (thrown + response) \<times> server" where
  "submit e config s =
     (case post_job e config s of
        (Inl t, s') \<Rightarrow> (Inl t, s')
      | (Inr (resp, job), s') \<Rightarrow> (Inr resp, snd (background_task e job config s')))"

text \<open>The snapshots that one submission has persisted, oldest first.\<close>

definition submit_writes :: "env \<Rightarrow> JobConfig \<Rightarrow> server \<Rightarrow> Job list" where
  "submit_writes e config s = drop (length (job_writes s)) (job_writes (snd (submit e config s)))"

definition get_job :: "env \<Rightarrow> string \<Rightarrow> (response, server) prog" where
  "get_job e jobId =
     bnd (getJob e jobId) (\<lambda>job.
       case job of
         None \<Rightarrow> ret (404, ErrorBody ''Job not found'')
       | Some j \<Rightarrow> ret (200, JobBody j))"

definition get_trace :: "env \<Rightarrow> string \<Rightarrow> (response, 'z world_scheme) prog" where
  "get_trace e jobId =
     bnd (artifacts_get e (trace_key jobId)) (\<lambda>traceData.
       case traceData of
         None \<Rightarrow> ret (404, ErrorBody ''Trace file not found'')
       | Some b \<Rightarrow> ret (200, BinaryBody b ''application/zip''))"

definition delete_job :: "env \<Rightarrow> string \<Rightarrow> (response, server) prog" where
  "delete_job e jobId =
     (if jobId = [] \<or> \<not> prefix ''job_'' jobId then ret (400, ErrorBody ''Invalid job ID'')
      else
        bnd (getJob e jobId) (\<lambda>job.
          case job of
            None \<Rightarrow> ret (404, ErrorBody ''Job not found'')
          | Some j \<Rightarrow>
              bnd (promise_all [jobs_delete e (job_key jobId),
                                artifacts_delete e (trace_key jobId)]) (\<lambda>_.
              bnd (artifacts_list e (''screenshot:'' @ jobId)) (\<lambda>screenshotArtifactKeys.
              bnd (if length screenshotArtifactKeys > 0 then
                     promise_all (map (artifacts_delete e) screenshotArtifactKeys)
                   else ret ()) (\<lambda>_.
              ret (200, DeletedBody ''Job deleted successfully'' jobId))))))"

definition get_screenshot :: "env \<Rightarrow> string \<Rightarrow> string \<Rightarrow> (response, 'z world_scheme) prog" where
  "get_screenshot e jobId screenshotId =
     bnd (artifacts_get e (''screenshot:'' @ jobId @ '':'' @ screenshotId)) (\<lambda>screenshotData.
       case screenshotData of
         None \<Rightarrow> ret (404, ErrorBody ''Screenshot not found'')
       | Some b \<Rightarrow> ret (200, BinaryBody b ''image/png''))"

text \<open>\<open>app.onError\<close>: whatever a handler throws becomes a 500.\<close>

definition onError :: "(response, 's) prog \<Rightarrow> 's \<Rightarrow> response \<times> 's" where
  "onError h s =
     (case h s of
        (Inl t, s') \<Rightarrow> ((500, ErrorMessageBody ''Internal server error'' (error_message t)), s')
      | (Inr r, s') \<Rightarrow> (r, s'))"


subsection \<open>Routing\<close>

text \<open>
  The route patterns of the source, matched segment by segment; a \<open>:param\<close> segment
  binds one non-empty segment. Percent-decoding of parameters is not modelled (the
  identifiers the worker generates contain no \<open>%\<close>).
\<close>

fun split_on :: "char \<Rightarrow> string \<Rightarrow> string list" where
  "split_on c [] = [[]]"
| "split_on c (x # xs) =
     (if x = c then [] # split_on c xs
      else (case split_on c xs of
              w # ws \<Rightarrow> (x # w) # ws
            | [] \<Rightarrow> [[x]]))"

datatype http_method = GET | POST | DELETE

datatype route =
    RouteSubmit
  | RouteGetJob string
  | RouteGetTrace string
  | RouteDeleteJob string
  | RouteGetScreenshot string string
  | RouteNotFound

definition route_of :: "http_method \<Rightarrow> string \<Rightarrow> route" where
  "route_of m path =
     (case split_on (CHR ''/'') path of
        [r, a, v, j] \<Rightarrow>
          (if r = [] \<and> a = ''api'' \<and> v = ''v1'' \<and> j = ''jobs'' \<and> m = POST
           then RouteSubmit else RouteNotFound)
      | [r, a, v, j, jobId] \<Rightarrow>
          (if r = [] \<and> a = ''api'' \<and> v = ''v1'' \<and> j = ''jobs'' \<and> jobId \<noteq> [] then
             (case m of GET \<Rightarrow> RouteGetJob jobId
                      | DELETE \<Rightarrow> RouteDeleteJob jobId
                      | POST \<Rightarrow> RouteNotFound)
           else RouteNotFound)
      | [r, a, v, j, jobId, t] \<Rightarrow>
          (if r = [] \<and> a = ''api'' \<and> v = ''v1'' \<and> j = ''jobs'' \<and> jobId \<noteq> []
              \<and> t = ''trace'' \<and> m = GET
           then RouteGetTrace jobId else RouteNotFound)
      | [r, a, v, j, jobId, sc, screenshotId] \<Rightarrow>
          (if r = [] \<and> a = ''api'' \<and> v = ''v1'' \<and> j = ''jobs'' \<and> jobId \<noteq> []
              \<and> sc = ''screenshots'' \<and> screenshotId \<noteq> [] \<and> m = GET
           then RouteGetScreenshot jobId screenshotId else RouteNotFound)
      | _ \<Rightarrow> RouteNotFound)"

text \<open>A request without a body: the routes other than the submission.\<close>

definition serve :: "env \<Rightarrow> http_method \<Rightarrow> string \<Rightarrow> server \<Rightarrow> response \<times> server" where
  "serve e m path s =
     (case route_of m path of
        RouteGetJob jobId \<Rightarrow> onError (get_job e jobId) s
      | RouteGetTrace jobId \<Rightarrow> onError (get_trace e jobId) s
      | RouteDeleteJob jobId \<Rightarrow> onError (delete_job e jobId) s
      | RouteGetScreenshot jobId screenshotId \<Rightarrow> onError (get_screenshot e jobId screenshotId) s
      | _ \<Rightarrow> ((404, ErrorMessageBody ''Not found''
                       (Some ''The requested endpoint does not exist'')), s))"

subsection \<open>Identifiers\<close>

text \<open>
  \<open>crypto.randomUUID()\<close> yields 36 characters: lower-case hexadecimal digits with a
  hyphen at the positions 8, 13, 18 and 23.
\<close>

definition is_hex :: "char \<Rightarrow> bool" where
  "is_hex c = (c \<in> set ''0123456789abcdef'')"

definition is_uuid :: "string \<Rightarrow> bool" where
  "is_uuid u =
     list_all2 (\<lambda>p c. if p = CHR ''-'' then c = CHR ''-'' else is_hex c)
       ''xxxxxxxx-xxxx-xxxx-xxxx-xxxxxxxxxxxx'' u"


section \<open>Vocabulary of the proofs\<close>

text \<open>A computation keeps an observation \<open>f\<close> of the state when it never changes it.\<close>

definition keeps :: "('s \<Rightarrow> 'b) \<Rightarrow> ('a, 's) prog \<Rightarrow> bool" where
  "keeps f m = (\<forall>s. f (snd (m s)) = f s)"

text \<open>
  A triple: from a state that satisfies \<open>P\<close>, a normal return with value \<open>v\<close> leaves a
  state that satisfies \<open>Q v\<close>, and a throw leaves a state that satisfies \<open>E\<close>.
\<close>

definition hoare ::
  "('s \<Rightarrow> bool) \<Rightarrow> ('a, 's) prog \<Rightarrow> ('a \<Rightarrow> 's \<Rightarrow> bool) \<Rightarrow> ('s \<Rightarrow> bool) \<Rightarrow> bool" where
  "hoare P m Q E =
     (\<forall>s. P s \<longrightarrow> (case m s of (Inr v, s') \<Rightarrow> Q v s' | (Inl t, s') \<Rightarrow> E s'))"

text \<open>An invariant: a triple with the same assertion before, after and on a throw.\<close>

definition stable :: "('s \<Rightarrow> bool) \<Rightarrow> ('a, 's) prog \<Rightarrow> bool" where
  "stable I m = hoare I m (\<lambda>v. I) I"

text \<open>
  A reference path is backed by the store when it is the path of a screenshot
  identifier of the job whose key holds a blob.
\<close>

definition ref_stored :: "string \<Rightarrow> blob kv \<Rightarrow> string \<Rightarrow> bool" where
  "ref_stored jobId kv p =
     (\<exists>i. is_uuid i \<and> p = screenshot_path jobId i \<and> map_of kv (screenshot_key jobId i) \<noteq> None)"

definition refs_stored :: "string \<Rightarrow> rstate \<Rightarrow> bool" where
  "refs_stored jobId s = (\<forall>p \<in> set (r_screenshots s). ref_stored jobId (artifacts s) p)"

text \<open>
  The screenshot references that a result hands to the client: the entries of
  \<open>statistics.screenshots\<close> and \<open>error.screenshot\<close>.
\<close>

definition screenshot_refs :: "JobResult \<Rightarrow> string set" where
  "screenshot_refs r =
     (case res_statistics r of None \<Rightarrow> {} | Some st \<Rightarrow> set (st_screenshots st)) \<union>
     (case res_error r of
        None \<Rightarrow> {}
      | Some eb \<Rightarrow> (case err_screenshot eb of None \<Rightarrow> {} | Some p \<Rightarrow> {p}))"

section \<open>Concrete inputs\<close>

definition the_job_id :: string where
  "the_job_id = ''87ed99b7-f372-4392-a046-e56f47256783''"

definition the_shot_id :: string where
  "the_shot_id = ''edf23531-b0db-4f75-9db4-c2b8a425f5d7''"

definition png_bytes :: blob where
  "png_bytes = [137, 80, 78, 71]"

definition zip_bytes :: blob where
  "zip_bytes = [80, 75, 3, 4]"

text \<open>
  An environment in which nothing throws. The first identifier drawn is the job's, the
  later ones are the screenshots'.
\<close>

definition quiet :: env where
  "quiet =
     \<lparr>eff = (\<lambda>n c. None),
      shot = (\<lambda>n. Inr png_bytes),
      uuid = (\<lambda>n. if n = 0 then the_job_id else the_shot_id),
      clock = (\<lambda>n. 1000 + int n),
      trace_zip = (\<lambda>n. zip_bytes),
      page_url = (\<lambda>n. ''https://example.com/''),
      net_requests = (\<lambda>n. 3),
      net_bytes = (\<lambda>n. 1256),
      js_stack = (\<lambda>n. None)\<rparr>"

definition blank :: action where
  "blank =
     \<lparr>a_type = Wait, a_selector = None, a_getByLabel = None, a_getByText = None,
      a_getByName = None, a_text = None, a_timeout = None, a_url = None,
      a_x = None, a_y = None, a_toContainText = None\<rparr>"

definition desktop_job :: "action list \<Rightarrow> bool option \<Rightarrow> JobConfig" where
  "desktop_job as tr =
     \<lparr>cfg_deviceType = Desktop, cfg_browserType = Chromium, cfg_actions = as,
      cfg_options = Some \<lparr>opt_timeout = None, opt_viewport = None,
                          opt_userAgent = None, opt_generateTrace = tr\<rparr>\<rparr>"

definition fresh :: server where
  "fresh = \<lparr>tick = 0, artifacts = [], files = [], calls = [], jobs = [], job_writes = []\<rparr>"

definition kv_error :: thrown where
  "kv_error = ErrorObj ''Error'' ''KV PUT failed: 429 Too Many Requests'' None"

definition click_timeout :: thrown where
  "click_timeout = ErrorObj ''TimeoutError'' ''locator.click: Timeout 500ms exceeded.'' None"

definition close_error :: thrown where
  "close_error = ErrorObj ''Error'' ''browser.close: Target page, context or browser has been closed'' None"

text \<open>
  The server after one accepted submission (a screenshot action, with a trace) has run to
  its end in the quiet environment.
\<close>

definition screenshot_job :: JobConfig where
  "screenshot_job = desktop_job [blank\<lparr>a_type := ScreenshotT\<rparr>] (Some True)"

definition wait_job :: JobConfig where
  "wait_job = desktop_job [blank] None"

definition after_submit :: server where
  "after_submit = snd (submit quiet screenshot_job fresh)"

text \<open>
  The write that turns the job to \<open>running\<close> is rejected; every other call succeeds.
  A submission draws the identifier (tick 0), reads the clock (tick 1) and writes the
  \<open>pending\<close> snapshot (tick 2); the \<open>running\<close> snapshot is the interaction at tick 3.
\<close>

definition running_write_fails :: env where
  "running_write_fails = quiet\<lparr>eff := (\<lambda>n c. if n = 3 then Some kv_error else None)\<rparr>"

text \<open>
  The click times out, \<open>page.screenshot\<close> works, and the artifact namespace rejects
  writes.
\<close>

definition click_fails_store_fails :: env where
  "click_fails_store_fails =
     quiet\<lparr>eff := (\<lambda>n c. case c of
                      FirstClick l t \<Rightarrow> Some click_timeout
                    | KvPut ns k \<Rightarrow> (if ns = ARTIFACTS_KV then Some kv_error else None)
                    | _ \<Rightarrow> None)\<rparr>"

text \<open>Only the click fails.\<close>

definition click_fails :: env where
  "click_fails =
     quiet\<lparr>eff := (\<lambda>n c. case c of FirstClick l t \<Rightarrow> Some click_timeout | _ \<Rightarrow> None)\<rparr>"

text \<open>Every action works and \<open>browser.close()\<close> rejects.\<close>

definition close_fails :: env where
  "close_fails =
     quiet\<lparr>eff := (\<lambda>n c. case c of BrowserClose \<Rightarrow> Some close_error | _ \<Rightarrow> None)\<rparr>"

definition missing_click :: action where
  "missing_click = blank\<lparr>a_type := Click, a_selector := Some ''#does-not-exist'',
                         a_timeout := Some 500\<rparr>"

definition traced_job :: JobConfig where
  "traced_job = desktop_job [blank] (Some True)"

text \<open>A run goes through; afterwards every read of a KV namespace is rejected.\<close>

definition read_error :: thrown where
  "read_error = ErrorObj ''Error'' ''KV GET failed: 500 Internal Server Error'' None"

definition trace_read_fails :: env where
  "trace_read_fails =
     quiet\<lparr>eff := (\<lambda>n c. case c of KvGet ns k \<Rightarrow> Some read_error | _ \<Rightarrow> None)\<rparr>"

definition click_job :: JobConfig where
  "click_job = desktop_job [missing_click] None"

definition empty_label_click :: action where
  "empty_label_click = blank\<lparr>a_type := Click, a_getByLabel := Some [],
                             a_selector := Some ''#submit''\<rparr>"

definition label_and_selector :: action where
  "label_and_selector = blank\<lparr>a_type := Click, a_getByLabel := Some ''Email'',
                              a_selector := Some ''#email''\<rparr>"

definition text_and_name :: action where
  "text_and_name = blank\<lparr>a_type := Click, a_getByText := Some (TextObject ''Docs'' (Some True)),
                         a_getByName := Some ''q''\<rparr>"

definition plain_text :: action where
  "plain_text = blank\<lparr>a_type := Click, a_getByText := Some (TextString ''/docs'')\<rparr>"

definition name_and_selector :: action where
  "name_and_selector = blank\<lparr>a_type := FillT, a_getByName := Some ''q'',
                             a_selector := Some ''#q''\<rparr>"

definition selector_only :: action where
  "selector_only = blank\<lparr>a_type := Scroll, a_selector := Some ''#footer''\<rparr>"

definition click_at :: action where
  "click_at = blank\<lparr>a_type := Click, a_x := Some 10, a_y := Some 20\<rparr>"

definition scroll_by :: action where
  "scroll_by = blank\<lparr>a_type := Scroll, a_x := Some 0, a_y := Some 300\<rparr>"

definition empty_expect :: action where
  "empty_expect = blank\<lparr>a_type := Expect, a_toContainText := Some []\<rparr>"

definition bare_expect :: action where
  "bare_expect = blank\<lparr>a_type := Expect, a_toContainText := Some ''Welcome''\<rparr>"

section \<open>Evaluation rules\<close>

lemmas prog_defs = ret_def throw_def bnd_def try_catch_def catch_value_def modify_def

lemmas ext_defs = logged_def call_ext_def page_screenshot_def randomUUID_def date_now_def
  artifacts_put_def artifacts_get_def artifacts_delete_def artifacts_list_def
  tracing_stop_def readFile_def get_page_url_def

lemmas runner_defs = storeScreenshot_def storeTrace_def push_step_def null_first_error_def
  exec_action_def step_failed_def run_step_def finish_def on_failure_def sequence_body_def
  enter_def leave_def executePlaywrightSequence_def generateTrace_def page_viewport_def
  page_userAgent_def default_timeout_def getLocator_def

lemmas submit_defs = storeJob_def background_task_def post_job_def submit_def

lemmas input_defs = screenshot_job_def wait_job_def traced_job_def click_job_def
  missing_click_def
  desktop_job_def blank_def fresh_def

lemma quiet_simps [simp]:
  "eff quiet n c = None"
  "shot quiet n = Inr png_bytes"
  "uuid quiet n = (if n = 0 then the_job_id else the_shot_id)"
  "clock quiet n = 1000 + int n"
  "trace_zip quiet n = zip_bytes"
  "page_url quiet n = ''https://example.com/''"
  "net_requests quiet n = 3"
  "net_bytes quiet n = 1256"
  "js_stack quiet n = None"
  by (simp_all add: quiet_def)

lemma key_distinct [simp]:
  "screenshot_key j i \<noteq> trace_key j'"
  "trace_key j' \<noteq> screenshot_key j i"
  by (simp_all add: screenshot_key_def trace_key_def)

subsection \<open>Observations that a computation keeps\<close>

lemma keepsD: "keeps f m \<Longrightarrow> m s = (r, s') \<Longrightarrow> f s' = f s"
  by (auto simp: keeps_def dest: sndI)

lemma keeps_ret: "keeps f (ret v)"
  by (simp add: keeps_def ret_def)


lemma keeps_bnd: "keeps f m \<Longrightarrow> (\<And>v. keeps f (k v)) \<Longrightarrow> keeps f (bnd m k)"
  unfolding keeps_def bnd_def
  by (auto split: prod.splits sum.splits) (metis snd_conv)+



lemma keeps_modify: "(\<And>s. f (g s) = f s) \<Longrightarrow> keeps f (modify g)"
  by (simp add: keeps_def modify_def)

lemma keeps_if: "keeps f m \<Longrightarrow> keeps f n \<Longrightarrow> keeps f (if b then m else n)"
  by simp

lemma keeps_promise_all: "(\<And>p. p \<in> set ps \<Longrightarrow> keeps f p) \<Longrightarrow> keeps f (promise_all ps)"
proof (induction ps)
  case Nil
  then show ?case by (simp add: keeps_def)
next
  case (Cons p ps)
  have p: "keeps f p" and rest: "keeps f (promise_all ps)"
    using Cons by simp_all
  show ?case
    unfolding keeps_def
  proof
    fix s
    obtain r s' where ps: "p s = (r, s')" by (cases "p s")
    have "f s' = f s" using keepsD [OF p ps] .
    moreover have "f (snd (promise_all ps s')) = f s'" using rest by (simp add: keeps_def)
    ultimately show "f (snd (promise_all (p # ps) s)) = f s"
      using ps by (cases r) simp_all
  qed
qed

section \<open>Deleting a job\<close>

lemma uuid_not_job_prefixed: "is_uuid u \<Longrightarrow> \<not> prefix ''job_'' u"
  by (cases u) (auto simp: is_uuid_def is_hex_def)

lemma delete_rejects_uuid:
  "is_uuid jobId \<Longrightarrow> delete_job e jobId s = (Inr (400, ErrorBody ''Invalid job ID''), s)"
  by (simp add: delete_job_def ret_def uuid_not_job_prefixed)

lemma the_job_id_uuid: "is_uuid the_job_id"
  by (simp add: the_job_id_def is_uuid_def is_hex_def)

lemma after_submit_jobs: "map fst (jobs after_submit) = [job_key the_job_id]"
  unfolding after_submit_def
  apply (simp add: prog_defs ext_defs submit_defs Let_def fresh_def cong: prod.case_cong_weak)
  apply (simp add: prog_defs ext_defs runner_defs input_defs cong: prod.case_cong_weak)
  apply (simp add: prog_defs ext_defs submit_defs cong: prod.case_cong_weak)
  done

lemma after_submit_artifacts:
  "map fst (artifacts after_submit) = [screenshot_key the_job_id the_shot_id, trace_key the_job_id]"
  unfolding after_submit_def
  apply (simp add: prog_defs ext_defs submit_defs Let_def fresh_def cong: prod.case_cong_weak)
  apply (simp add: prog_defs ext_defs runner_defs input_defs cong: prod.case_cong_weak)
  apply (simp add: prog_defs ext_defs submit_defs cong: prod.case_cong_weak)
  done

lemma route_delete_the_job:
  "route_of DELETE (''/api/v1/jobs/'' @ the_job_id) = RouteDeleteJob the_job_id"
  by (simp add: route_of_def the_job_id_def)

lemma route_get_the_job:
  "route_of GET (''/api/v1/jobs/'' @ the_job_id) = RouteGetJob the_job_id"
  by (simp add: route_of_def the_job_id_def)

lemma serve_delete_the_job:
  "serve e DELETE (''/api/v1/jobs/'' @ the_job_id) s = ((400, ErrorBody ''Invalid job ID''), s)"
  unfolding serve_def route_delete_the_job
  by (simp add: onError_def delete_rejects_uuid [OF the_job_id_uuid])

lemma get_the_job_after_submit:
  "fst (fst (serve quiet GET (''/api/v1/jobs/'' @ the_job_id) after_submit)) = 200"
proof -
  have "job_key the_job_id \<in> fst ` set (jobs after_submit)"
    using after_submit_jobs by (metis list.set_intros(1) set_map)
  then obtain j where "map_of (jobs after_submit) (job_key the_job_id) = Some j"
    by (metis domD dom_map_of_conv_image_fst)
  then show ?thesis
    unfolding serve_def route_get_the_job
    by (simp add: onError_def get_job_def getJob_def bnd_def ret_def)
qed

text \<open>
  C1 (fails on the code). The job that a submission has just stored carries the
  identifier \<open>crypto.randomUUID()\<close> gave it. \<open>DELETE /api/v1/jobs/{id}\<close> with that
  identifier answers 400 \<open>Invalid job ID\<close>, because the handler wants the identifier to
  start with \<open>job_\<close>; the job record, its screenshot and its trace stay where they were
  and a later GET still answers 200.
\<close>

theorem delete_of_stored_job_rejected:
  "is_uuid the_job_id \<and>
   map fst (jobs after_submit) = [job_key the_job_id] \<and>
   map fst (artifacts after_submit)
     = [screenshot_key the_job_id the_shot_id, trace_key the_job_id] \<and>
   serve quiet DELETE (''/api/v1/jobs/'' @ the_job_id) after_submit
     = ((400, ErrorBody ''Invalid job ID''), after_submit) \<and>
   fst (fst (serve quiet GET (''/api/v1/jobs/'' @ the_job_id)
          (snd (serve quiet DELETE (''/api/v1/jobs/'' @ the_job_id) after_submit)))) = 200"
  by (simp only: the_job_id_uuid after_submit_jobs after_submit_artifacts serve_delete_the_job
        get_the_job_after_submit snd_conv simp_thms)

section \<open>Job snapshots written by a submission\<close>

lemma storeJob_writes:
  "storeJob e j s = (r, s') \<Longrightarrow>
     job_writes s' = job_writes s @ (if r = Inr () then [j] else []) \<and> tick s' = Suc (tick s)"
  by (auto simp: storeJob_def logged_def split: option.splits)

lemma storeJob_accepted:
  "eff e (tick s) (KvPut JOBS_KV (job_key (job_id j))) = None \<Longrightarrow> fst (storeJob e j s) = Inr ()"
  by (simp add: storeJob_def)

lemma date_now_writes:
  "date_now e (s :: server) = (r, s') \<Longrightarrow> job_writes s' = job_writes s"
  by (auto simp: date_now_def)

lemma runner_writes:
  "executePlaywrightSequence e jobId config (s :: server) = (r, s') \<Longrightarrow>
     job_writes s' = job_writes s"
  by (auto simp: executePlaywrightSequence_def leave_def split: prod.splits)

text \<open>The \<open>catch\<close> of the background task writes at most one snapshot, a failed one.\<close>

lemma forced_failure_writes:
  fixes job :: Job
  defines "terminal \<equiv> \<lambda>f. (job_status f = Completed \<or> job_status f = Failed) \<and>
             job_completedAt f \<noteq> None \<and> job_result f \<noteq> None \<and> job_id f = job_id job"
  assumes run: "bnd (date_now e) (\<lambda>completedAt.
        bnd (date_now e) (\<lambda>ts.
        storeJob e (job\<lparr>job_status := Failed,
                        job_completedAt := Some completedAt,
                        job_result := Some
                          \<lparr>res_status = Fail, res_duration = 0, res_timestamp = ts,
                           res_statistics = None,
                           res_error = Some \<lparr>err_message = message_or ''Test execution failed'' t,
                                              err_stack = error_stack t,
                                              err_screenshot = None\<rparr>,
                           res_trace = None\<rparr>\<rparr>))) s = (r, s')"
  shows "\<exists>f. terminal f \<and> job_status f = Failed \<and>
             job_writes s' = job_writes s @ (if r = Inr () then [f] else [])"
proof -
  obtain c1 s1 where 1: "date_now e s = (Inr c1, s1)" by (simp add: date_now_def)
  obtain c2 s2 where 2: "date_now e s1 = (Inr c2, s2)" by (simp add: date_now_def)
  let ?failed = "job\<lparr>job_status := Failed, job_completedAt := Some c1,
      job_result := Some \<lparr>res_status = Fail, res_duration = 0, res_timestamp = c2,
        res_statistics = None,
        res_error = Some \<lparr>err_message = message_or ''Test execution failed'' t,
                           err_stack = error_stack t, err_screenshot = None\<rparr>,
        res_trace = None\<rparr>\<rparr>"
  have 3: "storeJob e ?failed s2 = (r, s')"
    using run 1 2 by (simp add: bnd_def)
  have "job_writes s' = job_writes s @ (if r = Inr () then [?failed] else [])"
    using date_now_writes [OF 1] date_now_writes [OF 2] storeJob_writes [OF 3] by simp
  moreover have "terminal ?failed \<and> job_status ?failed = Failed"
    by (simp add: terminal_def)
  ultimately show ?thesis by blast
qed

lemma background_task_writes:
  fixes job :: Job
  defines "terminal \<equiv> \<lambda>f. (job_status f = Completed \<or> job_status f = Failed) \<and>
             job_completedAt f \<noteq> None \<and> job_result f \<noteq> None \<and> job_id f = job_id job"
  defines "started \<equiv> job\<lparr>job_status := Running\<rparr>"
  shows "\<exists>ws. job_writes (snd (background_task e job config s)) = job_writes s @ ws \<and>
           (ws = [] \<or> (\<exists>f. ws = [f] \<and> terminal f \<and> job_status f = Failed) \<or> ws = [started] \<or>
            (\<exists>f. ws = [started, f] \<and> terminal f)) \<and>
           ((\<forall>n k. eff e n (KvPut JOBS_KV k) = None) \<longrightarrow> (\<exists>f. ws = [started, f] \<and> terminal f))"
proof -
  let ?handler = "\<lambda>error. bnd (date_now e) (\<lambda>completedAt.
        bnd (date_now e) (\<lambda>ts.
        storeJob e (job\<lparr>job_status := Failed,
                        job_completedAt := Some completedAt,
                        job_result := Some
                          \<lparr>res_status = Fail, res_duration = 0, res_timestamp = ts,
                           res_statistics = None,
                           res_error = Some \<lparr>err_message = message_or ''Test execution failed'' error,
                                              err_stack = error_stack error,
                                              err_screenshot = None\<rparr>,
                           res_trace = None\<rparr>\<rparr>)))"
  have forced: "\<exists>f. terminal f \<and> job_status f = Failed \<and>
             job_writes s'' = job_writes s' @ (if r = Inr () then [f] else [])"
    if "?handler t s' = (r, s'')" for t s' r s''
    using forced_failure_writes [OF that] by (simp add: terminal_def)
  let ?ok = "\<forall>n k. eff e n (KvPut JOBS_KV k) = None"
  have accepted: "?ok \<longrightarrow> fst (storeJob e j s') = Inr ()" for j s'
    by (simp add: storeJob_accepted)
  obtain r1 s1 where 1: "storeJob e started s = (r1, s1)"
    by (cases "storeJob e started s")
  have w1: "job_writes s1 = job_writes s @ (if r1 = Inr () then [started] else [])"
    using storeJob_writes [OF 1] by simp
  show ?thesis
  proof (cases r1)
    case (Inl t)
    obtain r s' where h: "?handler t s1 = (r, s')" by (cases "?handler t s1")
    have bt: "background_task e job config s = (r, s')"
      using 1 Inl h by (simp add: background_task_def try_catch_def bnd_def started_def)
    have "\<not> ?ok" using accepted [of started s] 1 Inl by auto
    then show ?thesis using forced [OF h] w1 Inl bt
      by (cases "r = Inr ()") auto
  next
    case (Inr u)
    obtain r2 s2 where 2: "executePlaywrightSequence e (job_id job) config s1 = (r2, s2)"
      by (cases "executePlaywrightSequence e (job_id job) config s1")
    have w2: "job_writes s2 = job_writes s @ [started]"
      using w1 Inr runner_writes [OF 2] by simp
    show ?thesis
    proof (cases r2)
      case t: (Inl t)
      obtain r s' where h: "?handler t s2 = (r, s')" by (cases "?handler t s2")
      have bt: "background_task e job config s = (r, s')"
        using 1 Inr 2 t h by (simp add: background_task_def try_catch_def bnd_def started_def)
      have "?ok \<longrightarrow> r = Inr ()"
        using h accepted by (auto simp: bnd_def date_now_def dest: fstI)
      then show ?thesis using forced [OF h] w2 bt
        by (cases "r = Inr ()") auto
    next
      case res: (Inr result)
      obtain c1 s3 where 3: "date_now e s2 = (Inr c1, s3)" by (simp add: date_now_def)
      let ?done = "job\<lparr>job_status := (if res_status result = Success then Completed else Failed),
          job_completedAt := Some c1, job_result := Some result\<rparr>"
      have td: "terminal ?done" by (simp add: terminal_def)
      obtain r4 s4 where 4: "storeJob e ?done s3 = (r4, s4)"
        by (cases "storeJob e ?done s3")
      have w4: "job_writes s4 = job_writes s @ [started] @ (if r4 = Inr () then [?done] else [])"
        using w2 date_now_writes [OF 3] storeJob_writes [OF 4] by simp
      show ?thesis
      proof (cases r4)
        case ok: (Inr v)
        have "background_task e job config s = (Inr (), s4)"
          using 1 Inr 2 res 3 4 ok
          by (simp add: background_task_def try_catch_def bnd_def started_def)
        then show ?thesis using w4 ok td by auto
      next
        case bad: (Inl t)
        obtain r s' where h: "?handler t s4 = (r, s')" by (cases "?handler t s4")
        have bt: "background_task e job config s = (r, s')"
          using 1 Inr 2 res 3 4 bad h
          by (simp add: background_task_def try_catch_def bnd_def started_def)
        have "\<not> ?ok" using accepted [of ?done s3] 4 bad by auto
        then show ?thesis using forced [OF h] w4 bad bt
          by (cases "r = Inr ()") auto
      qed
    qed
  qed
qed

lemma submit_writes_shape:
  fixes e :: env and config :: JobConfig and s :: server
  defines "job0 \<equiv> \<lparr>job_id = uuid e (tick s), job_status = Pending,
                      job_createdAt = clock e (Suc (tick s)), job_completedAt = None,
                      job_config = config, job_result = None\<rparr>"
  defines "terminal \<equiv> \<lambda>f. (job_status f = Completed \<or> job_status f = Failed) \<and>
             job_completedAt f \<noteq> None \<and> job_result f \<noteq> None \<and> job_id f = uuid e (tick s)"
  defines "ws \<equiv> submit_writes e config s"
  shows "(ws = [] \<or> ws = [job0] \<or> (\<exists>f. ws = [job0, f] \<and> terminal f \<and> job_status f = Failed) \<or>
          ws = [job0, job0\<lparr>job_status := Running\<rparr>] \<or>
          (\<exists>f. ws = [job0, job0\<lparr>job_status := Running\<rparr>, f] \<and> terminal f)) \<and>
         ((\<forall>n k. eff e n (KvPut JOBS_KV k) = None) \<longrightarrow>
          (\<exists>f. ws = [job0, job0\<lparr>job_status := Running\<rparr>, f] \<and> terminal f))"
proof -
  let ?s2 = "s\<lparr>tick := Suc (Suc (tick s))\<rparr>"
  let ?resp = "(202, SubmittedBody (uuid e (tick s)) Pending ''Test job submitted successfully'')"
  obtain r3 s3 where 3: "storeJob e job0 ?s2 = (r3, s3)"
    by (cases "storeJob e job0 ?s2")
  have post: "post_job e config s =
      (case r3 of Inl t \<Rightarrow> (Inl t, s3) | Inr u \<Rightarrow> (Inr (?resp, job0), s3))"
    using 3 by (simp add: post_job_def bnd_def ret_def randomUUID_def date_now_def Let_def
                  job0_def split: sum.splits)
  have w3: "job_writes s3 = job_writes s @ (if r3 = Inr () then [job0] else [])"
    using storeJob_writes [OF 3] by simp
  show ?thesis
  proof (cases r3)
    case (Inl t)
    have "submit e config s = (Inl t, s3)"
      using post Inl by (simp add: submit_def)
    then have "ws = []" using w3 Inl by (simp add: ws_def submit_writes_def)
    moreover have "\<not> (\<forall>n k. eff e n (KvPut JOBS_KV k) = None)"
      using storeJob_accepted [of e ?s2 job0] 3 Inl by auto
    ultimately show ?thesis by simp
  next
    case (Inr u)
    have sub: "submit e config s = (Inr ?resp, snd (background_task e job0 config s3))"
      using post Inr by (simp add: submit_def)
    have "\<exists>bs. job_writes (snd (background_task e job0 config s3)) = job_writes s3 @ bs \<and>
            (bs = [] \<or> (\<exists>f. bs = [f] \<and> terminal f \<and> job_status f = Failed) \<or>
             bs = [job0\<lparr>job_status := Running\<rparr>] \<or>
             (\<exists>f. bs = [job0\<lparr>job_status := Running\<rparr>, f] \<and> terminal f)) \<and>
            ((\<forall>n k. eff e n (KvPut JOBS_KV k) = None) \<longrightarrow>
             (\<exists>f. bs = [job0\<lparr>job_status := Running\<rparr>, f] \<and> terminal f))"
      using background_task_writes [of e job0 config s3]
      by (simp add: terminal_def job0_def)
    then obtain bs where bs: "job_writes (snd (background_task e job0 config s3)) = job_writes s3 @ bs"
      and shape: "bs = [] \<or> (\<exists>f. bs = [f] \<and> terminal f \<and> job_status f = Failed) \<or>
                  bs = [job0\<lparr>job_status := Running\<rparr>] \<or>
                  (\<exists>f. bs = [job0\<lparr>job_status := Running\<rparr>, f] \<and> terminal f)"
      and ok: "(\<forall>n k. eff e n (KvPut JOBS_KV k) = None) \<longrightarrow>
                  (\<exists>f. bs = [job0\<lparr>job_status := Running\<rparr>, f] \<and> terminal f)"
      by blast
    have "ws = job0 # bs"
      using sub bs w3 Inr by (simp add: ws_def submit_writes_def)
    then show ?thesis using shape ok by auto
  qed
qed

lemma submit_writes_append:
  "job_writes (snd (submit e config s)) = job_writes s @ submit_writes e config s"
proof -
  let ?s2 = "s\<lparr>tick := Suc (Suc (tick s))\<rparr>"
  let ?job0 = "\<lparr>job_id = uuid e (tick s), job_status = Pending,
                 job_createdAt = clock e (Suc (tick s)), job_completedAt = None,
                 job_config = config, job_result = None\<rparr>"
  obtain r3 s3 where 3: "storeJob e ?job0 ?s2 = (r3, s3)"
    by (cases "storeJob e ?job0 ?s2")
  have "\<exists>bs. job_writes (snd (submit e config s)) = job_writes s @ bs"
  proof (cases r3)
    case (Inl t)
    then show ?thesis using 3 storeJob_writes [OF 3]
      by (simp add: submit_def post_job_def bnd_def ret_def randomUUID_def date_now_def Let_def)
  next
    case (Inr u)
    then show ?thesis
      using 3 storeJob_writes [OF 3] background_task_writes [of e ?job0 config s3]
      by (auto simp add: submit_def post_job_def bnd_def ret_def randomUUID_def date_now_def Let_def)
  qed
  then show ?thesis by (auto simp: submit_writes_def)
qed

lemma quiet_wait_statuses:
  "map job_status (submit_writes quiet wait_job fresh) = [Pending, Running, Completed]"
  unfolding submit_writes_def
  apply (simp add: prog_defs ext_defs submit_defs Let_def fresh_def cong: prod.case_cong_weak)
  apply (simp add: prog_defs ext_defs runner_defs input_defs cong: prod.case_cong_weak)
  apply (simp add: prog_defs ext_defs submit_defs cong: prod.case_cong_weak)
  done

text \<open>
  C2 (as amended). The statuses that one submission persists form one of the sequences
  below: \<open>pending\<close> first, then at most one \<open>running\<close>, then at most one terminal status,
  and nothing after a terminal status; every snapshot carries the identifier drawn for
  the job. When no write to the job namespace is rejected, the sequence is exactly
  \<open>pending\<close>, \<open>running\<close>, then \<open>completed\<close> or \<open>failed\<close>.
\<close>

theorem status_writes_monotone:
  "map job_status (submit_writes e config s)
     \<in> {[], [Pending], [Pending, Failed], [Pending, Running],
        [Pending, Running, Completed], [Pending, Running, Failed]} \<and>
   ((\<forall>n k. eff e n (KvPut JOBS_KV k) = None) \<longrightarrow>
    map job_status (submit_writes e config s)
      \<in> {[Pending, Running, Completed], [Pending, Running, Failed]}) \<and>
   (\<forall>j \<in> set (submit_writes e config s). job_id j = uuid e (tick s))"
  using submit_writes_shape [of e config s] by auto

theorem status_writes_monotone_witness:
  "(\<forall>n k. eff quiet n (KvPut JOBS_KV k) = None) \<and>
   map job_status (submit_writes quiet wait_job fresh) = [Pending, Running, Completed] \<and>
   job_id (last (submit_writes quiet wait_job fresh)) = the_job_id"
proof -
  have ne: "submit_writes quiet wait_job fresh \<noteq> []"
    using quiet_wait_statuses by auto
  have "job_id (last (submit_writes quiet wait_job fresh)) = uuid quiet (tick fresh)"
    using status_writes_monotone [of quiet wait_job fresh] last_in_set [OF ne] by blast
  then show ?thesis
    using quiet_wait_statuses by (simp add: fresh_def)
qed

text \<open>
  C2 as stated fails: when the write of the \<open>running\<close> snapshot is rejected, the
  \<open>catch\<close> of the background task persists \<open>failed\<close> directly after \<open>pending\<close>, and no
  \<open>running\<close> snapshot is ever written.
\<close>

theorem status_writes_skip_running:
  "map job_status (submit_writes running_write_fails wait_job fresh) = [Pending, Failed]"
  unfolding submit_writes_def
  apply (simp add: prog_defs ext_defs submit_defs Let_def fresh_def running_write_fails_def
           cong: prod.case_cong_weak)
  done

section \<open>Shape of the persisted job records\<close>

lemma keeps_writes_world:
  "keeps job_writes (call_ext e c :: (unit, server) prog)"
  "keeps job_writes (artifacts_delete e k :: (unit, server) prog)"
  "keeps job_writes (artifacts_list e k :: (string list, server) prog)"
  "keeps job_writes (artifacts_get e k :: (blob option, server) prog)"
  "keeps job_writes (jobs_delete e k)"
  "keeps job_writes (getJob e k)"
  by (simp_all add: keeps_def call_ext_def artifacts_delete_def artifacts_list_def
        artifacts_get_def jobs_delete_def getJob_def logged_def split: option.splits)

lemma delete_job_writes: "keeps job_writes (delete_job e jobId)"
  unfolding delete_job_def
  by (intro keeps_if keeps_ret keeps_bnd keeps_promise_all keeps_writes_world
        | simp split: option.splits add: keeps_ret
        | auto simp: keeps_writes_world)+

lemma serve_writes: "job_writes (snd (serve e m path s)) = job_writes s"
proof -
  have on: "job_writes (snd (onError h s)) = job_writes s" if "keeps job_writes h"
    for h :: "(response, server) prog"
    using that by (auto simp: onError_def keeps_def split: prod.splits sum.splits)
        (metis snd_conv)+
  have "keeps job_writes (get_job e j)" for j
    unfolding get_job_def
    by (intro keeps_bnd keeps_writes_world) (simp split: option.splits add: keeps_ret)
  moreover have "keeps job_writes (get_trace e j :: (response, server) prog)" for j
    unfolding get_trace_def
    by (intro keeps_bnd keeps_writes_world) (simp split: option.splits add: keeps_ret)
  moreover have "keeps job_writes (get_screenshot e j i :: (response, server) prog)" for j i
    unfolding get_screenshot_def
    by (intro keeps_bnd keeps_writes_world) (simp split: option.splits add: keeps_ret)
  ultimately show ?thesis
    using delete_job_writes
    by (simp add: serve_def on split: route.splits)
qed

text \<open>
  C3. Every job record that a submission persists has a result exactly when its status is
  \<open>completed\<close> or \<open>failed\<close>, and a completion time exactly when its status is
  \<open>completed\<close> or \<open>failed\<close>; these are the only records ever written, since the
  writes of a submission are appended to the history and no other route writes a record.
\<close>

theorem persisted_records_wellformed:
  "(\<forall>j \<in> set (submit_writes e config s).
      ((job_result j \<noteq> None) = (job_status j = Completed \<or> job_status j = Failed)) \<and>
      ((job_completedAt j \<noteq> None) = (job_status j = Completed \<or> job_status j = Failed))) \<and>
   job_writes (snd (submit e config s)) = job_writes s @ submit_writes e config s \<and>
   job_writes (snd (serve e' m path s)) = job_writes s"
proof -
  have "((job_result j \<noteq> None) = (job_status j = Completed \<or> job_status j = Failed)) \<and>
        ((job_completedAt j \<noteq> None) = (job_status j = Completed \<or> job_status j = Failed))"
    if "j \<in> set (submit_writes e config s)" for j
    using submit_writes_shape [of e config s] that by auto
  then show ?thesis
    using submit_writes_append [of e config s] serve_writes [of e' m path s] by blast
qed

theorem persisted_records_wellformed_witness:
  "job_status (hd (submit_writes quiet wait_job fresh)) = Pending \<and>
   job_result (hd (submit_writes quiet wait_job fresh)) = None \<and>
   job_completedAt (hd (submit_writes quiet wait_job fresh)) = None \<and>
   job_status (last (submit_writes quiet wait_job fresh)) = Completed \<and>
   job_result (last (submit_writes quiet wait_job fresh)) \<noteq> None \<and>
   job_completedAt (last (submit_writes quiet wait_job fresh)) \<noteq> None"
proof -
  let ?ws = "submit_writes quiet wait_job fresh"
  have ne: "?ws \<noteq> []" using quiet_wait_statuses by auto
  have h: "job_status (hd ?ws) = Pending"
    using quiet_wait_statuses ne by (metis list.sel(1) list.map_sel(1))
  have l: "job_status (last ?ws) = Completed"
    using quiet_wait_statuses ne by (metis last.simps last_map list.distinct(1))
  have mem: "hd ?ws \<in> set ?ws" "last ?ws \<in> set ?ws" using ne by simp_all
  note all = conjunct1 [OF persisted_records_wellformed [of quiet wait_job fresh quiet GET "[]"]]
  show ?thesis
    using bspec [OF all mem(1)] bspec [OF all mem(2)] h l by simp
qed


section \<open>Locator resolution\<close>

text \<open>
  C5 as stated fails: a locator field that is set to the empty string is passed over.
  Here \<open>getByLabel\<close> is set (to the empty string) and comes first in the order, yet the
  selector is chosen.
\<close>

theorem empty_label_is_skipped:
  "a_getByLabel empty_label_click = Some [] \<and>
   getLocator empty_label_click = Some (Css ''#submit'')"
  by (simp add: empty_label_click_def blank_def getLocator_def)

text \<open>
  C5 (as amended). \<open>getLocator\<close> picks the first field that is set to a non-empty value
  (an object-form \<open>getByText\<close> always counts) in the order getByLabel, getByText with its
  flag, getByName as a textbox role, selector. When no field counts it yields no
  locator, and then a click (a scroll) is exactly the coordinate click (wheel) when
  both \<open>x\<close> and \<open>y\<close> are given, and does nothing otherwise.
\<close>

theorem locator_resolution_order:
  "(\<forall>l. a_getByLabel a = Some l \<and> l \<noteq> [] \<longrightarrow> getLocator a = Some (ByLabel l)) \<and>
   (\<not> truthy_str (a_getByLabel a) \<longrightarrow>
      (\<forall>t. a_getByText a = Some (TextString t) \<and> t \<noteq> [] \<longrightarrow>
           getLocator a = Some (ByText t None)) \<and>
      (\<forall>t ex. a_getByText a = Some (TextObject t ex) \<longrightarrow>
           getLocator a = Some (ByText t ex))) \<and>
   (\<not> truthy_str (a_getByLabel a) \<and> \<not> truthy_text (a_getByText a) \<longrightarrow>
      (\<forall>n. a_getByName a = Some n \<and> n \<noteq> [] \<longrightarrow>
           getLocator a = Some (ByRole ''textbox'' n))) \<and>
   (\<not> truthy_str (a_getByLabel a) \<and> \<not> truthy_text (a_getByText a) \<and>
    \<not> truthy_str (a_getByName a) \<longrightarrow>
      (\<forall>c. a_selector a = Some c \<and> c \<noteq> [] \<longrightarrow> getLocator a = Some (Css c))) \<and>
   (\<not> truthy_str (a_getByLabel a) \<and> \<not> truthy_text (a_getByText a) \<and>
    \<not> truthy_str (a_getByName a) \<and> \<not> truthy_str (a_selector a) \<longrightarrow>
      getLocator a = None \<and>
      (a_type a = Click \<longrightarrow>
         exec_action e jobId a nav =
           (case (a_x a, a_y a) of
              (Some x, Some y) \<Rightarrow> call_ext e (MouseClick x y)
            | _ \<Rightarrow> ret ())) \<and>
      (a_type a = Scroll \<longrightarrow>
         exec_action e jobId a nav =
           (case (a_x a, a_y a) of
              (Some x, Some y) \<Rightarrow> call_ext e (MouseWheel x y)
            | _ \<Rightarrow> ret ())))"
proof -
  have str: "truthy_val v = (if truthy_str v then v else None)" for v
    by (cases v) simp_all
  have none: "getLocator a = None"
    if "\<not> truthy_str (a_getByLabel a)" "\<not> truthy_text (a_getByText a)"
       "\<not> truthy_str (a_getByName a)" "\<not> truthy_str (a_selector a)"
    using that by (simp add: getLocator_def str)
  have label: "getLocator a = Some (ByLabel l)" if "a_getByLabel a = Some l" "l \<noteq> []" for l
    using that by (simp add: getLocator_def)
  have text1: "getLocator a = Some (ByText t None)"
    if "\<not> truthy_str (a_getByLabel a)" "a_getByText a = Some (TextString t)" "t \<noteq> []" for t
    using that by (simp add: getLocator_def str)
  have text2: "getLocator a = Some (ByText t ex)"
    if "\<not> truthy_str (a_getByLabel a)" "a_getByText a = Some (TextObject t ex)" for t ex
    using that by (simp add: getLocator_def str)
  have name: "getLocator a = Some (ByRole ''textbox'' n)"
    if "\<not> truthy_str (a_getByLabel a)" "\<not> truthy_text (a_getByText a)"
       "a_getByName a = Some n" "n \<noteq> []" for n
    using that by (simp add: getLocator_def str)
  have css: "getLocator a = Some (Css c)"
    if "\<not> truthy_str (a_getByLabel a)" "\<not> truthy_text (a_getByText a)"
       "\<not> truthy_str (a_getByName a)" "a_selector a = Some c" "c \<noteq> []" for c
    using that by (simp add: getLocator_def str)
  have click: "exec_action e jobId a nav =
           (case (a_x a, a_y a) of
              (Some x, Some y) \<Rightarrow> call_ext e (MouseClick x y)
            | _ \<Rightarrow> ret ())"
    if "getLocator a = None" "a_type a = Click"
    using that by (simp add: exec_action_def)
  have scroll: "exec_action e jobId a nav =
           (case (a_x a, a_y a) of
              (Some x, Some y) \<Rightarrow> call_ext e (MouseWheel x y)
            | _ \<Rightarrow> ret ())"
    if "getLocator a = None" "a_type a = Scroll"
    using that by (simp add: exec_action_def)
  show ?thesis
    using none label text1 text2 name css click scroll by blast
qed

theorem locator_resolution_order_witness:
  "getLocator label_and_selector = Some (ByLabel ''Email'') \<and>
   getLocator plain_text = Some (ByText ''/docs'' None) \<and>
   getLocator text_and_name = Some (ByText ''Docs'' (Some True)) \<and>
   getLocator name_and_selector = Some (ByRole ''textbox'' ''q'') \<and>
   getLocator selector_only = Some (Css ''#footer'') \<and>
   getLocator click_at = None \<and>
   exec_action quiet the_job_id click_at None = call_ext quiet (MouseClick 10 20) \<and>
   exec_action quiet the_job_id scroll_by None = call_ext quiet (MouseWheel 0 300)"
proof -
  note r = locator_resolution_order
  have 1: "getLocator label_and_selector = Some (ByLabel ''Email'')"
    using r [of label_and_selector] by (simp add: label_and_selector_def blank_def)
  have 2: "getLocator plain_text = Some (ByText ''/docs'' None)"
    using r [of plain_text] by (simp add: plain_text_def blank_def)
  have 3: "getLocator text_and_name = Some (ByText ''Docs'' (Some True))"
    using r [of text_and_name] by (simp add: text_and_name_def blank_def)
  have 4: "getLocator name_and_selector = Some (ByRole ''textbox'' ''q'')"
    using r [of name_and_selector] by (simp add: name_and_selector_def blank_def)
  have 5: "getLocator selector_only = Some (Css ''#footer'')"
    using r [of selector_only] by (simp add: selector_only_def blank_def)
  have 6: "getLocator click_at = None \<and>
           exec_action quiet the_job_id click_at None = call_ext quiet (MouseClick 10 20)"
    using r [of click_at quiet the_job_id None] by (simp add: click_at_def blank_def)
  have 7: "exec_action quiet the_job_id scroll_by None = call_ext quiet (MouseWheel 0 300)"
    using r [of scroll_by quiet the_job_id None] by (simp add: scroll_by_def blank_def)
  show ?thesis using 1 2 3 4 5 6 7 by simp
qed

section \<open>An \<open>expect\<close> action without a locator\<close>

lemma step_failed_throws: "isl (fst (step_failed e jobId a stepStart error s))"
  by (simp add: step_failed_def prog_defs date_now_def page_screenshot_def randomUUID_def
        storeScreenshot_def artifacts_put_def push_step_def
        split: sum.splits option.splits prod.splits)

lemma run_step_of_throwing_action:
  assumes "\<And>nav s'. isl (fst (exec_action e jobId a nav s'))"
  shows "isl (fst (run_step e jobId a s))"
proof -
  obtain t0 s0 where 0: "date_now e s = (Inr t0, s0)" by (simp add: date_now_def)
  have "\<exists>nav s1.
    (if a_type a = Goto then bnd (date_now e) (\<lambda>t. ret (Some t)) else ret None) s0 = (Inr nav, s1)"
    by (simp add: bnd_def ret_def date_now_def)
  then obtain nav s1 where 1:
    "(if a_type a = Goto then bnd (date_now e) (\<lambda>t. ret (Some t)) else ret None) s0 = (Inr nav, s1)"
    by blast
  obtain t s2 where 2: "exec_action e jobId a nav s1 = (Inl t, s2)"
    using assms [of nav s1] by (cases "exec_action e jobId a nav s1") (auto simp: isl_def)
  have "run_step e jobId a s = step_failed e jobId a t0 t s2"
    using 0 1 2 by (simp add: run_step_def bnd_def try_catch_def)
  then show ?thesis by (simp add: step_failed_throws)
qed

text \<open>
  C10 as stated fails: \<open>toContainText\<close> set to the empty string passes the schema, and
  the \<open>expect\<close> step is then a successful no-op. No locator is dereferenced.
\<close>

theorem empty_expect_is_noop:
  "actionSchema (\<lambda>u. False) empty_expect \<and>
   a_toContainText empty_expect = Some [] \<and>
   getLocator empty_expect = None \<and>
   fst (run_step quiet the_job_id empty_expect (enter fresh)) = Inr () \<and>
   map step_success (tr_steps (r_trace (snd (run_step quiet the_job_id empty_expect (enter fresh)))))
     = [True]"
  by (simp add: actionSchema_def empty_expect_def blank_def getLocator_def run_step_def
        exec_action_def prog_defs date_now_def push_step_def enter_def fresh_def)

text \<open>
  C10 (as amended). For an \<open>expect\<close> action whose \<open>toContainText\<close> is non-empty and
  whose locator fields are all absent or empty (so that \<open>getLocator\<close> yields \<open>null\<close>),
  the action body throws the engine's \<open>TypeError\<close> for \<open>.first()\<close> on \<open>null\<close> before
  any call reaches the browser, and the step fails: it is never a no-op. For an
  \<open>expect\<close> action whose \<open>toContainText\<close> is the empty string, whatever its locator
  fields, the action body does nothing and the step succeeds: no call is made, nothing
  is stored, and one successful trace step is appended.
\<close>

theorem bare_expect_throws:
  assumes "a_type a = Expect"
  shows "(a_toContainText a = Some txt \<and> txt \<noteq> [] \<and>
          \<not> truthy_str (a_getByLabel a) \<and> \<not> truthy_text (a_getByText a) \<and>
          \<not> truthy_str (a_getByName a) \<and> \<not> truthy_str (a_selector a) \<longrightarrow>
            exec_action e jobId a nav s
              = (Inl (ErrorObj ''TypeError'' null_first_message (js_stack e (tick s))), s) \<and>
            isl (fst (run_step e jobId a s))) \<and>
         (a_toContainText a = Some [] \<longrightarrow>
            exec_action e jobId a nav s = (Inr (), s) \<and>
            fst (run_step e jobId a s) = Inr () \<and>
            calls (snd (run_step e jobId a s)) = calls s \<and>
            artifacts (snd (run_step e jobId a s)) = artifacts s \<and>
            map step_success (tr_steps (r_trace (snd (run_step e jobId a s))))
              = map step_success (tr_steps (r_trace s)) @ [True])"
proof (intro conjI impI)
  assume h: "a_toContainText a = Some txt \<and> txt \<noteq> [] \<and>
          \<not> truthy_str (a_getByLabel a) \<and> \<not> truthy_text (a_getByText a) \<and>
          \<not> truthy_str (a_getByName a) \<and> \<not> truthy_str (a_selector a)"
  have str: "truthy_val v = (if truthy_str v then v else None)" for v
    by (cases v) simp_all
  have "getLocator a = None"
    using h by (simp add: getLocator_def str)
  then have body: "exec_action e jobId a nav' s'
           = (Inl (ErrorObj ''TypeError'' null_first_message (js_stack e (tick s'))), s')"
    for nav' s'
    using assms h by (simp add: exec_action_def null_first_error_def)
  show "exec_action e jobId a nav s
          = (Inl (ErrorObj ''TypeError'' null_first_message (js_stack e (tick s))), s)"
    by (rule body)
  show "isl (fst (run_step e jobId a s))"
    by (intro run_step_of_throwing_action) (simp add: body)
next
  assume h: "a_toContainText a = Some []"
  have body: "exec_action e jobId a nav' s' = (Inr (), s')" for nav' s'
    using assms h by (simp add: exec_action_def ret_def)
  show "exec_action e jobId a nav s = (Inr (), s)"
    by (rule body)
  have step: "run_step e jobId a s
      = (Inr (), s\<lparr>tick := Suc (Suc (Suc (tick s))),
                    r_trace := (r_trace s)\<lparr>tr_steps := tr_steps (r_trace s) @
                      [\<lparr>step_action = getActionDescription a,
                        step_timestamp = clock e (Suc (Suc (tick s))),
                        step_duration = clock e (Suc (tick s)) - clock e (tick s),
                        step_success = True, step_error = None, step_screenshot = None\<rparr>]\<rparr>\<rparr>)"
    using assms by (simp add: run_step_def body prog_defs date_now_def push_step_def)
  show "fst (run_step e jobId a s) = Inr ()" by (simp add: step)
  show "calls (snd (run_step e jobId a s)) = calls s" by (simp add: step)
  show "artifacts (snd (run_step e jobId a s)) = artifacts s" by (simp add: step)
  show "map step_success (tr_steps (r_trace (snd (run_step e jobId a s))))
              = map step_success (tr_steps (r_trace s)) @ [True]"
    by (simp add: step)
qed

theorem bare_expect_throws_witness:
  "(exec_action quiet the_job_id bare_expect None (enter fresh)
      = (Inl (ErrorObj ''TypeError'' null_first_message None), enter fresh) \<and>
    isl (fst (run_step quiet the_job_id bare_expect (enter fresh)))) \<and>
   (exec_action quiet the_job_id empty_expect None (enter fresh) = (Inr (), enter fresh) \<and>
    fst (run_step quiet the_job_id empty_expect (enter fresh)) = Inr () \<and>
    calls (snd (run_step quiet the_job_id empty_expect (enter fresh))) = [] \<and>
    map step_success (tr_steps (r_trace (snd (run_step quiet the_job_id empty_expect (enter fresh)))))
      = [True])"
proof -
  have fresh_run: "calls (enter fresh) = [] \<and> tr_steps (r_trace (enter fresh)) = []"
    by (simp add: enter_def fresh_def)
  have "exec_action quiet the_job_id bare_expect None (enter fresh)
      = (Inl (ErrorObj ''TypeError'' null_first_message None), enter fresh) \<and>
    isl (fst (run_step quiet the_job_id bare_expect (enter fresh)))"
    using bare_expect_throws [of bare_expect "''Welcome''" quiet the_job_id None "enter fresh"]
    by (simp add: bare_expect_def blank_def)
  moreover have "exec_action quiet the_job_id empty_expect None (enter fresh) = (Inr (), enter fresh) \<and>
    fst (run_step quiet the_job_id empty_expect (enter fresh)) = Inr () \<and>
    calls (snd (run_step quiet the_job_id empty_expect (enter fresh))) = [] \<and>
    map step_success (tr_steps (r_trace (snd (run_step quiet the_job_id empty_expect (enter fresh)))))
      = [True]"
    using bare_expect_throws [of empty_expect "[]" quiet the_job_id None "enter fresh"] fresh_run
    by (simp add: empty_expect_def blank_def)
  ultimately show ?thesis by simp
qed


section \<open>Closing the browser\<close>

lemma close_fails_result:
  "\<not> isl (fst (executePlaywrightSequence close_fails the_job_id wait_job fresh)) \<and>
   res_status (projr (fst (executePlaywrightSequence close_fails the_job_id wait_job fresh))) = Fail"
  by (simp add: prog_defs ext_defs runner_defs input_defs close_fails_def
        cong: prod.case_cong_weak)

lemma close_fails_message:
  "map_option err_message
     (res_error (projr (fst (executePlaywrightSequence close_fails the_job_id wait_job fresh))))
   = Some ''browser.close: Target page, context or browser has been closed''"
  by (simp add: prog_defs ext_defs runner_defs input_defs close_fails_def close_error_def
        cong: prod.case_cong_weak)

lemma close_fails_steps:
  "map_option (map step_success \<circ> tr_steps)
     (res_trace (projr (fst (executePlaywrightSequence close_fails the_job_id wait_job fresh))))
   = Some [True]"
  by (simp add: prog_defs ext_defs runner_defs input_defs close_fails_def
        cong: prod.case_cong_weak)

lemma close_fails_calls:
  "filter (\<lambda>c. c = BrowserClose)
     (calls (snd (executePlaywrightSequence close_fails the_job_id wait_job fresh)))
   = [BrowserClose, BrowserClose]"
  by (simp add: prog_defs ext_defs runner_defs input_defs close_fails_def
        cong: prod.case_cong_weak)

lemma quiet_wait_result:
  "res_status (projr (fst (executePlaywrightSequence quiet the_job_id wait_job fresh))) = Success"
  by (simp add: prog_defs ext_defs runner_defs input_defs cong: prod.case_cong_weak)

text \<open>
  C7 (fails on the code). One \<open>wait\<close> action that succeeds, in an environment where
  \<open>browser.close()\<close> rejects. On the success path the close is a plain \<open>await\<close> inside
  the outer \<open>try\<close>: its rejection lands in the outer \<open>catch\<close>, and the job, whose only
  step succeeded, returns \<open>fail\<close> with the close error as its error. The same job
  returns \<open>success\<close> when the close works.
\<close>

theorem close_failure_fails_the_job:
  "eff close_fails n BrowserClose = Some close_error \<and>
   \<not> isl (fst (executePlaywrightSequence close_fails the_job_id wait_job fresh)) \<and>
   res_status (projr (fst (executePlaywrightSequence close_fails the_job_id wait_job fresh))) = Fail \<and>
   map_option err_message
     (res_error (projr (fst (executePlaywrightSequence close_fails the_job_id wait_job fresh))))
     = Some ''browser.close: Target page, context or browser has been closed'' \<and>
   map_option (map step_success \<circ> tr_steps)
     (res_trace (projr (fst (executePlaywrightSequence close_fails the_job_id wait_job fresh))))
     = Some [True] \<and>
   filter (\<lambda>c. c = BrowserClose)
     (calls (snd (executePlaywrightSequence close_fails the_job_id wait_job fresh)))
     = [BrowserClose, BrowserClose] \<and>
   res_status (projr (fst (executePlaywrightSequence quiet the_job_id wait_job fresh))) = Success"
proof -
  have "eff close_fails n BrowserClose = Some close_error"
    by (simp add: close_fails_def)
  then show ?thesis
    using close_fails_result close_fails_message close_fails_steps close_fails_calls
      quiet_wait_result
    by (simp only: simp_thms)
qed

section \<open>The first failing action\<close>

lemma store_fails_result:
  "\<not> isl (fst (executePlaywrightSequence click_fails_store_fails the_job_id click_job fresh)) \<and>
   res_status (projr (fst (executePlaywrightSequence click_fails_store_fails the_job_id
                             click_job fresh))) = Fail"
  by (simp add: prog_defs ext_defs runner_defs input_defs click_fails_store_fails_def
        cong: prod.case_cong_weak)

lemma store_fails_steps:
  "map_option tr_steps
     (res_trace (projr (fst (executePlaywrightSequence click_fails_store_fails the_job_id
                               click_job fresh)))) = Some []"
  by (simp add: prog_defs ext_defs runner_defs input_defs click_fails_store_fails_def
        cong: prod.case_cong_weak)

lemma store_fails_calls:
  "calls (snd (executePlaywrightSequence click_fails_store_fails the_job_id click_job fresh))
   = [Launch, NewPage (device_viewport Desktop) (device_userAgent Desktop),
      SetDefaultTimeout 30000,
      FirstClick (Css ''#does-not-exist'') (Some 500),
      PageScreenshot, KvPut ARTIFACTS_KV (screenshot_key the_job_id the_shot_id),
      PageScreenshot, KvPut ARTIFACTS_KV (screenshot_key the_job_id the_shot_id),
      BrowserClose]"
  by (simp add: prog_defs ext_defs runner_defs input_defs click_fails_store_fails_def
        cong: prod.case_cong_weak)

lemma store_fails_message:
  "map_option err_message
     (res_error (projr (fst (executePlaywrightSequence click_fails_store_fails the_job_id
                               click_job fresh))))
   = Some ''KV PUT failed: 429 Too Many Requests''"
  by (simp add: prog_defs ext_defs runner_defs input_defs click_fails_store_fails_def
        kv_error_def cong: prod.case_cong_weak)

lemma click_fails_message:
  "map_option err_message
     (res_error (projr (fst (executePlaywrightSequence click_fails the_job_id click_job fresh))))
   = Some ''locator.click: Timeout 500ms exceeded.''"
  by (simp add: prog_defs ext_defs runner_defs input_defs click_fails_def
        click_timeout_def cong: prod.case_cong_weak)

lemma click_fails_steps:
  "map_option (map (\<lambda>st. (step_success st, step_error st)) \<circ> tr_steps)
     (res_trace (projr (fst (executePlaywrightSequence click_fails the_job_id click_job fresh))))
   = Some [(False, Some ''locator.click: Timeout 500ms exceeded.'')]"
  by (simp add: prog_defs ext_defs runner_defs input_defs click_fails_def
        click_timeout_def cong: prod.case_cong_weak)

text \<open>
  C4 (fails on the code). One configured action, a click that times out; the diagnostic
  screenshot is taken and the artifact namespace rejects its write. The click was
  attempted and failed (\<open>k = 1\<close>), yet the trace of the returned result has no entry at
  all: \<open>storeScreenshot\<close> throws out of the per-step \<open>catch\<close> block before the failed
  step is appended.
\<close>

theorem failed_step_not_recorded:
  "length (cfg_actions click_job) = 1 \<and>
   eff click_fails_store_fails n (FirstClick (Css ''#does-not-exist'') (Some 500))
     = Some click_timeout \<and>
   FirstClick (Css ''#does-not-exist'') (Some 500)
     \<in> set (calls (snd (executePlaywrightSequence click_fails_store_fails the_job_id
                           click_job fresh))) \<and>
   \<not> isl (fst (executePlaywrightSequence click_fails_store_fails the_job_id click_job fresh)) \<and>
   map_option tr_steps
     (res_trace (projr (fst (executePlaywrightSequence click_fails_store_fails the_job_id
                               click_job fresh)))) = Some []"
proof -
  have a: "length (cfg_actions click_job) = 1"
    by (simp add: click_job_def desktop_job_def)
  have b: "eff click_fails_store_fails n (FirstClick (Css ''#does-not-exist'') (Some 500))
             = Some click_timeout"
    by (simp add: click_fails_store_fails_def)
  have c: "FirstClick (Css ''#does-not-exist'') (Some 500)
     \<in> set (calls (snd (executePlaywrightSequence click_fails_store_fails the_job_id
                           click_job fresh)))"
    by (simp add: prog_defs ext_defs runner_defs input_defs click_fails_store_fails_def
          cong: prod.case_cong_weak)
  show ?thesis
    using a b c store_fails_result store_fails_steps by (simp only: simp_thms)
qed

text \<open>
  C6 (fails on the code). Same input. The diagnostic screenshot of the per-step
  \<open>catch\<close> is taken, its write to the artifact namespace is rejected, and that rejection
  is not swallowed: it replaces the click's error. The result carries the message of
  the storage error, not of the click, and the trace has no failed step. When the write
  is accepted, the result carries the click's message and the trace its failed step.
\<close>

theorem diagnostic_failure_masks_error:
  "map_option err_message
     (res_error (projr (fst (executePlaywrightSequence click_fails_store_fails the_job_id
                               click_job fresh))))
     = Some ''KV PUT failed: 429 Too Many Requests'' \<and>
   message_or ''Unknown error'' click_timeout = ''locator.click: Timeout 500ms exceeded.'' \<and>
   calls (snd (executePlaywrightSequence click_fails_store_fails the_job_id click_job fresh))
     = [Launch, NewPage (device_viewport Desktop) (device_userAgent Desktop),
        SetDefaultTimeout 30000,
        FirstClick (Css ''#does-not-exist'') (Some 500),
        PageScreenshot, KvPut ARTIFACTS_KV (screenshot_key the_job_id the_shot_id),
        PageScreenshot, KvPut ARTIFACTS_KV (screenshot_key the_job_id the_shot_id),
        BrowserClose] \<and>
   map_option err_message
     (res_error (projr (fst (executePlaywrightSequence click_fails the_job_id click_job fresh))))
     = Some ''locator.click: Timeout 500ms exceeded.'' \<and>
   map_option (map (\<lambda>st. (step_success st, step_error st)) \<circ> tr_steps)
     (res_trace (projr (fst (executePlaywrightSequence click_fails the_job_id click_job fresh))))
     = Some [(False, Some ''locator.click: Timeout 500ms exceeded.'')]"
proof -
  have "message_or ''Unknown error'' click_timeout = ''locator.click: Timeout 500ms exceeded.''"
    by (simp add: click_timeout_def)
  then show ?thesis
    using store_fails_message store_fails_calls click_fails_message click_fails_steps
    by (simp only: simp_thms)
qed


section \<open>Routing of the generated identifiers\<close>

lemma split_on_nonempty: "split_on c s \<noteq> []"
  by (induction s) (auto split: list.splits)

lemma split_on_plain: "c \<notin> set s \<Longrightarrow> split_on c s = [s]"
  by (induction s) auto

lemma split_on_segment: "c \<notin> set s \<Longrightarrow> split_on c (s @ c # rest) = s # split_on c rest"
  by (induction s) (auto split: list.splits simp: split_on_nonempty)

lemma uuid_chars: "is_uuid u \<Longrightarrow> x \<in> set u \<Longrightarrow> x = CHR ''-'' \<or> is_hex x"
proof -
  assume u: "is_uuid u" and x: "x \<in> set u"
  from x obtain i where i: "i < length u" "u ! i = x" by (auto simp: in_set_conv_nth)
  from u have "list_all2 (\<lambda>p c. if p = CHR ''-'' then c = CHR ''-'' else is_hex c)
                 ''xxxxxxxx-xxxx-xxxx-xxxx-xxxxxxxxxxxx'' u"
    by (simp add: is_uuid_def)
  then have "(\<lambda>p c. if p = CHR ''-'' then c = CHR ''-'' else is_hex c)
               (''xxxxxxxx-xxxx-xxxx-xxxx-xxxxxxxxxxxx'' ! i) (u ! i)"
    using i(1) by (rule list_all2_nthD2)
  then show ?thesis using i(2) by (auto split: if_splits)
qed

lemma uuid_segment: "is_uuid u \<Longrightarrow> CHR ''/'' \<notin> set u \<and> u \<noteq> []"
proof
  assume u: "is_uuid u"
  show "CHR ''/'' \<notin> set u"
    using uuid_chars [OF u, of "CHR ''/''"] by (auto simp: is_hex_def)
  from u have "length u = 36"
    by (auto simp: is_uuid_def dest: list_all2_lengthD)
  then show "u \<noteq> []" by auto
qed


lemma route_screenshot:
  assumes "is_uuid jobId" and "is_uuid screenshotId"
  shows "route_of GET (screenshot_path jobId screenshotId)
           = RouteGetScreenshot jobId (screenshotId @ ''.png'')"
proof -
  have "CHR ''/'' \<notin> set (screenshotId @ ''.png'')"
    using uuid_segment [OF assms(2)] by simp
  then have "split_on (CHR ''/'') (screenshot_path jobId screenshotId)
          = [[], ''api'', ''v1'', ''jobs'', jobId, ''screenshots'', screenshotId @ ''.png'']"
    using uuid_segment [OF assms(1)]
    by (simp add: screenshot_path_def split_on_segment split_on_plain del: append_assoc
          add: append_assoc [symmetric])
  then show ?thesis
    using uuid_segment [OF assms(1)] by (simp add: route_of_def)
qed

section \<open>The trace bundle\<close>


text \<open>An observation that does not read the world is kept by every external call.\<close>

lemma keeps_external:
  fixes f :: "'z world_scheme \<Rightarrow> 'b"
  assumes "\<And>s t. f (s\<lparr>tick := t\<rparr>) = f s" and "\<And>s c. f (s\<lparr>calls := c\<rparr>) = f s"
      and "\<And>s a. f (s\<lparr>artifacts := a\<rparr>) = f s" and "\<And>s a. f (s\<lparr>files := a\<rparr>) = f s"
  shows "keeps f (call_ext e c)" and "keeps f (page_screenshot e)" and "keeps f (randomUUID e)"
    and "keeps f (date_now e)" and "keeps f (get_page_url e)"
    and "keeps f (artifacts_put e k v)" and "keeps f (storeScreenshot e j i v)"
    and "keeps f (storeTrace e j v)" and "keeps f (tracing_stop e p)"
    and "keeps f (readFile e p)" and "keeps f (null_first_error e)"
  using assms
  by (simp_all add: keeps_def ext_defs storeScreenshot_def storeTrace_def null_first_error_def
        bnd_def ret_def split: option.splits)






lemma on_failure_result:
  "\<exists>r. fst (on_failure e jobId startTime error s) = Inr r \<and> res_status r = Fail \<and>
       map_option err_message (res_error r) = Some (message_or ''Unknown error'' error) \<and>
       map_option err_stack (res_error r) = Some (error_stack error)"
proof -
  let ?shot = "try_catch
            (\<lambda>s. if r_page s then
                    bnd (page_screenshot e) (\<lambda>screenshotBuffer.
                    bnd (randomUUID e) (\<lambda>screenshotId.
                    bnd (storeScreenshot e jobId screenshotId screenshotBuffer) (\<lambda>_.
                    ret (Some (screenshot_path jobId screenshotId))))) s
                  else (Inr None, s))
            (\<lambda>screenshotError. ret None)"
  have shot: "\<exists>v. fst (?shot s') = Inr v" for s'
    by (cases "?shot s'") (auto simp: try_catch_def ret_def split: prod.splits sum.splits)
  have close: "\<exists>v. fst ((\<lambda>s. if r_browser s then catch_value (call_ext e BrowserClose) () s
                                else (Inr (), s)) s') = Inr v" for s'
    by (auto simp: catch_value_def split: prod.splits sum.splits)
  obtain t s1 where 1: "date_now e s = (Inr t, s1)" by (simp add: date_now_def)
  obtain v s2 where 2: "?shot s1 = (Inr v, s2)"
    using shot [of s1] by (cases "?shot s1") auto
  obtain u s3 where 3: "(\<lambda>s. if r_browser s then catch_value (call_ext e BrowserClose) () s
                                else (Inr (), s)) s2 = (Inr u, s3)"
    using close [of s2]
    by (cases "(\<lambda>s. if r_browser s then catch_value (call_ext e BrowserClose) () s
                                else (Inr (), s)) s2") auto
  obtain ts s4 where 4: "date_now e s3 = (Inr ts, s4)" by (simp add: date_now_def)
  show ?thesis
    unfolding on_failure_def
    using 1 2 3 4 by (simp add: bnd_def)
qed







lemma trace_read_fails_simps [simp]:
  "eff trace_read_fails n c = (case c of KvGet ns k \<Rightarrow> Some read_error | _ \<Rightarrow> None)"
  "shot trace_read_fails n = Inr png_bytes"
  "uuid trace_read_fails n = (if n = 0 then the_job_id else the_shot_id)"
  "clock trace_read_fails n = 1000 + int n"
  "trace_zip trace_read_fails n = zip_bytes"
  "page_url trace_read_fails n = ''https://example.com/''"
  "net_requests trace_read_fails n = 3"
  "net_bytes trace_read_fails n = 1256"
  "js_stack trace_read_fails n = None"
  by (simp_all add: trace_read_fails_def quiet_def)








section \<open>Screenshot references\<close>

subsection \<open>Rules for triples\<close>

lemma hoareI:
  "(\<And>s r s'. P s \<Longrightarrow> m s = (r, s') \<Longrightarrow> (case r of Inr v \<Rightarrow> Q v s' | Inl t \<Rightarrow> E s'))
     \<Longrightarrow> hoare P m Q E"
  unfolding hoare_def
proof (intro allI impI)
  fix s
  assume r: "\<And>s r s'. P s \<Longrightarrow> m s = (r, s') \<Longrightarrow> (case r of Inr v \<Rightarrow> Q v s' | Inl t \<Rightarrow> E s')"
    and p: "P s"
  obtain x s' where ms: "m s = (x, s')" by (cases "m s")
  from r [OF p ms] show "case m s of (Inl t, s') \<Rightarrow> E s' | (Inr v, s') \<Rightarrow> Q v s'"
    using ms by (cases x) simp_all
qed

lemma hoareD:
  "hoare P m Q E \<Longrightarrow> P s \<Longrightarrow> m s = (r, s') \<Longrightarrow> (case r of Inr v \<Rightarrow> Q v s' | Inl t \<Rightarrow> E s')"
proof -
  assume h: "hoare P m Q E" and p: "P s" and ms: "m s = (r, s')"
  from h p have "case m s of (Inl t, s') \<Rightarrow> E s' | (Inr v, s') \<Rightarrow> Q v s'"
    by (simp add: hoare_def)
  then show ?thesis using ms by (cases r) simp_all
qed

lemma hoare_ret: "(\<And>s. P s \<Longrightarrow> Q v s) \<Longrightarrow> hoare P (ret v) Q E"
  by (simp add: hoare_def ret_def)

lemma hoare_bnd:
  assumes m: "hoare P m R E" and k: "\<And>v. hoare (R v) (k v) Q E"
  shows "hoare P (bnd m k) Q E"
proof (rule hoareI)
  fix s r s'
  assume p: "P s" and run: "bnd m k s = (r, s')"
  obtain x s1 where ms: "m s = (x, s1)" by (cases "m s")
  show "case r of Inr v \<Rightarrow> Q v s' | Inl t \<Rightarrow> E s'"
  proof (cases x)
    case (Inl t)
    then have "r = Inl t" "s' = s1" using run ms by (simp_all add: bnd_def)
    then show ?thesis using hoareD [OF m p ms] Inl by simp
  next
    case (Inr v)
    then have "k v s1 = (r, s')" using run ms by (simp add: bnd_def)
    moreover have "R v s1" using hoareD [OF m p ms] Inr by simp
    ultimately show ?thesis using hoareD [OF k] by blast
  qed
qed

lemma hoare_try_catch:
  assumes m: "hoare P m Q E'" and h: "\<And>t. hoare E' (h t) Q E"
  shows "hoare P (try_catch m h) Q E"
proof (rule hoareI)
  fix s r s'
  assume p: "P s" and run: "try_catch m h s = (r, s')"
  obtain x s1 where ms: "m s = (x, s1)" by (cases "m s")
  show "case r of Inr v \<Rightarrow> Q v s' | Inl t \<Rightarrow> E s'"
  proof (cases x)
    case (Inl t)
    then have "h t s1 = (r, s')" using run ms by (simp add: try_catch_def)
    moreover have "E' s1" using hoareD [OF m p ms] Inl by simp
    ultimately show ?thesis using hoareD [OF h] by blast
  next
    case (Inr v)
    then have "r = Inr v" "s' = s1" using run ms by (simp_all add: try_catch_def)
    then show ?thesis using hoareD [OF m p ms] Inr by simp
  qed
qed

lemma hoare_weaken:
  assumes m: "hoare P' m Q' E'"
      and "\<And>s. P s \<Longrightarrow> P' s" and "\<And>v s. Q' v s \<Longrightarrow> Q v s" and "\<And>s. E' s \<Longrightarrow> E s"
  shows "hoare P m Q E"
proof (rule hoareI)
  fix s r s'
  assume p: "P s" and run: "m s = (r, s')"
  from hoareD [OF m assms(2) [OF p] run] show "case r of Inr v \<Rightarrow> Q v s' | Inl t \<Rightarrow> E s'"
    using assms(3,4) by (cases r) simp_all
qed

lemma stableD: "stable I m \<Longrightarrow> I s \<Longrightarrow> m s = (r, s') \<Longrightarrow> I s'"
  using hoareD [of I m "\<lambda>v. I" I s r s'] by (cases r) (simp_all add: stable_def)

lemma stable_ret: "stable I (ret v)"
  by (simp add: stable_def hoare_ret)

lemma stable_throw: "stable I (throw t)"
  by (simp add: stable_def hoare_def throw_def)

lemma stable_bnd: "stable I m \<Longrightarrow> (\<And>v. stable I (k v)) \<Longrightarrow> stable I (bnd m k)"
  unfolding stable_def by (rule hoare_bnd)

lemma stable_try_catch: "stable I m \<Longrightarrow> (\<And>t. stable I (h t)) \<Longrightarrow> stable I (try_catch m h)"
  unfolding stable_def by (rule hoare_try_catch)

lemma stable_catch_value:
  assumes "stable I m"
  shows "stable I (catch_value m d)"
  unfolding stable_def
proof (rule hoareI)
  fix s r s'
  assume p: "I s" and run: "catch_value m d s = (r, s')"
  obtain x s1 where ms: "m s = (x, s1)" by (cases "m s")
  have "I s1" using stableD [OF assms p ms] .
  moreover have "s' = s1 \<and> (\<exists>v. r = Inr v)"
    using run ms by (cases x) (auto simp: catch_value_def)
  ultimately show "case r of Inr v \<Rightarrow> I s' | Inl t \<Rightarrow> I s'" by auto
qed

lemma stable_modify: "(\<And>s. I s \<Longrightarrow> I (g s)) \<Longrightarrow> stable I (modify g)"
  by (simp add: stable_def hoare_def modify_def)

lemma stable_keeps:
  assumes k: "keeps f m" and c: "\<And>s s'. f s' = f s \<Longrightarrow> I s \<Longrightarrow> I s'"
  shows "stable I m"
  unfolding stable_def
proof (rule hoareI)
  fix s r s'
  assume p: "I s" and run: "m s = (r, s')"
  have "I s'" using c [OF keepsD [OF k run] p] .
  then show "case r of Inr v \<Rightarrow> I s' | Inl t \<Rightarrow> I s'" by (cases r) simp_all
qed

subsection \<open>The references of a run are backed by the store\<close>

lemma keeps_unstored:
  fixes f :: "'z world_scheme \<Rightarrow> 'b"
  assumes "\<And>s t. f (s\<lparr>tick := t\<rparr>) = f s" and "\<And>s c. f (s\<lparr>calls := c\<rparr>) = f s"
      and "\<And>s a. f (s\<lparr>files := a\<rparr>) = f s"
  shows "keeps f (call_ext e c)" and "keeps f (page_screenshot e)" and "keeps f (randomUUID e)"
    and "keeps f (date_now e)" and "keeps f (get_page_url e)" and "keeps f (tracing_stop e p)"
    and "keeps f (readFile e p)" and "keeps f (null_first_error e)"
  using assms
  by (simp_all add: keeps_def ext_defs null_first_error_def split: option.splits)

lemmas keeps_refs =
  keeps_unstored [where f = "\<lambda>s :: rstate. (artifacts s, r_screenshots s)", simplified]

lemma refs_stored_cong:
  "(artifacts s', r_screenshots s') = (artifacts s, r_screenshots s) \<Longrightarrow>
     refs_stored jobId s \<Longrightarrow> refs_stored jobId s'"
  by (simp add: refs_stored_def)

lemmas stable_refs = keeps_refs [THEN stable_keeps, OF refs_stored_cong]

lemma ref_stored_update:
  "ref_stored jobId kv p \<Longrightarrow> ref_stored jobId (AList.update k v kv) p"
  by (auto simp: ref_stored_def update_conv')

lemma stable_refs_put: "stable (refs_stored jobId) (artifacts_put e k v)"
  unfolding stable_def
  by (rule hoareI)
     (auto simp: artifacts_put_def logged_def refs_stored_def ref_stored_update
           split: option.splits)

lemma stable_refs_store:
  "stable (refs_stored jobId) (storeScreenshot e j i v)"
  "stable (refs_stored jobId) (storeTrace e j v)"
  unfolding storeScreenshot_def storeTrace_def
  by (intro stable_bnd stable_refs_put stable_ret)+

lemma screenshot_action_refs:
  assumes ids: "\<forall>n. is_uuid (uuid e n)"
  shows "stable (refs_stored jobId)
           (bnd (page_screenshot e) (\<lambda>screenshotBuffer.
            bnd (randomUUID e) (\<lambda>screenshotId.
            bnd (storeScreenshot e jobId screenshotId screenshotBuffer) (\<lambda>_.
            modify (\<lambda>s. s\<lparr>r_screenshots :=
                      r_screenshots s @ [screenshot_path jobId screenshotId]\<rparr>)))))"
proof -
  let ?I = "refs_stored jobId"
  have uuid: "hoare ?I (randomUUID e) (\<lambda>i s. ?I s \<and> is_uuid i) ?I"
    by (rule hoareI) (auto simp: randomUUID_def ids refs_stored_def)
  have store: "hoare (\<lambda>s. ?I s \<and> is_uuid i) (storeScreenshot e jobId i b)
                 (\<lambda>k s. ?I s \<and> is_uuid i \<and> map_of (artifacts s) (screenshot_key jobId i) \<noteq> None) ?I"
    for i b
    by (rule hoareI)
       (auto simp: storeScreenshot_def bnd_def ret_def artifacts_put_def logged_def
             refs_stored_def ref_stored_update update_conv' split: option.splits)
  have push: "hoare (\<lambda>s. ?I s \<and> is_uuid i \<and> map_of (artifacts s) (screenshot_key jobId i) \<noteq> None)
                 (modify (\<lambda>s. s\<lparr>r_screenshots := r_screenshots s @ [screenshot_path jobId i]\<rparr>))
                 (\<lambda>v. ?I) ?I" for i
    by (rule hoareI) (auto simp: modify_def refs_stored_def ref_stored_def)
  show ?thesis
    unfolding stable_def
    by (intro hoare_bnd [OF stable_refs(2) [unfolded stable_def]] hoare_bnd [OF uuid]
          hoare_bnd [OF store] push)
qed

lemma exec_action_refs:
  assumes ids: "\<forall>n. is_uuid (uuid e n)"
  shows "stable (refs_stored jobId) (exec_action e jobId a nav)"
proof (cases "a_type a")
  case ScreenshotT
  then show ?thesis
    using screenshot_action_refs [OF ids] by (simp add: exec_action_def)
next
  case Goto
  have "stable (refs_stored jobId) (modify g)"
    if "\<And>s. artifacts (g s) = artifacts s \<and> r_screenshots (g s) = r_screenshots s"
    for g :: "rstate \<Rightarrow> rstate"
    using that by (intro stable_modify) (simp add: refs_stored_def)
  then show ?thesis
    using Goto
    by (auto simp: exec_action_def intro!: stable_bnd stable_ret stable_refs split: option.splits)
next
  case Click
  then show ?thesis
    by (auto simp: exec_action_def intro!: stable_ret stable_refs split: option.splits)
next
  case FillT
  then show ?thesis
    by (auto simp: exec_action_def intro!: stable_ret stable_refs split: option.splits)
next
  case Wait
  then show ?thesis
    by (auto simp: exec_action_def intro!: stable_ret stable_refs split: option.splits)
next
  case Scroll
  then show ?thesis
    by (auto simp: exec_action_def intro!: stable_ret stable_refs split: option.splits)
next
  case Expect
  then show ?thesis
    by (auto simp: exec_action_def intro!: stable_ret stable_refs split: option.splits)
qed

lemma push_step_refs: "stable (refs_stored jobId) (push_step st)"
  unfolding push_step_def by (intro stable_modify) (simp add: refs_stored_def)

lemma step_failed_refs:
  "stable (refs_stored jobId) (step_failed e jobId a stepStart error)"
  unfolding step_failed_def
  by (auto intro!: stable_bnd stable_ret stable_throw stable_catch_value stable_refs
        stable_refs_store push_step_refs split: option.splits)

lemma run_step_refs:
  assumes ids: "\<forall>n. is_uuid (uuid e n)"
  shows "stable (refs_stored jobId) (run_step e jobId a)"
  unfolding run_step_def
  by (auto intro!: stable_bnd stable_try_catch stable_ret stable_refs push_step_refs
        exec_action_refs [OF ids] step_failed_refs)

lemma run_actions_refs:
  assumes ids: "\<forall>n. is_uuid (uuid e n)"
  shows "stable (refs_stored jobId) (run_actions e jobId as)"
proof (induction as)
  case Nil
  then show ?case by (simp add: stable_def hoare_def)
next
  case (Cons a as)
  show ?case
    unfolding stable_def
  proof (rule hoareI)
    fix s r s'
    assume p: "refs_stored jobId s" and run: "run_actions e jobId (a # as) s = (r, s')"
    obtain x s1 where st: "run_step e jobId a s = (x, s1)" by (cases "run_step e jobId a s")
    have i1: "refs_stored jobId s1" using stableD [OF run_step_refs [OF ids] p st] .
    have "refs_stored jobId s'"
    proof (cases x)
      case (Inl t)
      then show ?thesis using run st i1 by simp
    next
      case (Inr u)
      then have "run_actions e jobId as s1 = (r, s')" using run st by simp
      then show ?thesis using stableD [OF Cons.IH i1] by blast
    qed
    then show "case r of Inr v \<Rightarrow> refs_stored jobId s' | Inl t \<Rightarrow> refs_stored jobId s'"
      by (cases r) simp_all
  qed
qed

lemma finish_refs:
  "hoare (refs_stored jobId) (finish e jobId config startTime)
     (\<lambda>r s. \<forall>p \<in> screenshot_refs r. ref_stored jobId (artifacts s) p)
     (refs_stored jobId)"
proof -
  let ?I = "refs_stored jobId"
  have url: "stable ?I (modify (\<lambda>s. s\<lparr>r_trace := (r_trace s)\<lparr>tr_traceViewerUrl := u\<rparr>\<rparr>))" for u
    by (intro stable_modify) (simp add: refs_stored_def)
  have last: "hoare ?I (\<lambda>s.
       (Inr \<lparr>res_status = Success, res_duration = d, res_timestamp = ts,
             res_statistics = Some
               \<lparr>st_loadTime = r_loadTime s, st_domContentLoaded = r_domContentLoaded s,
                st_networkRequests = net_requests e (tick s), st_totalBytes = net_bytes e (tick s),
                st_screenshots = r_screenshots s, st_finalUrl = finalUrl\<rparr>,
             res_error = None, res_trace = Some (r_trace s)\<rparr>, s))
     (\<lambda>r s. \<forall>p \<in> screenshot_refs r. ref_stored jobId (artifacts s) p) ?I" for d ts finalUrl
    by (rule hoareI) (auto simp: screenshot_refs_def refs_stored_def)
  have pre: "stable ?I (if generateTrace config then tracing_stop e ''trace.zip'' else ret ())"
    by (simp add: stable_refs stable_ret)
  have tr: "stable ?I (if generateTrace config then
            bnd (readFile e ''trace.zip'') (\<lambda>file.
            bnd (storeTrace e jobId file) (\<lambda>_.
            modify (\<lambda>s. s\<lparr>r_trace := (r_trace s)\<lparr>tr_traceViewerUrl :=
                                         Some (traceViewerUrl jobId)\<rparr>\<rparr>)))
          else ret ())"
    by (auto intro!: stable_bnd stable_ret stable_refs stable_refs_store url)
  show ?thesis
    unfolding finish_def
    by (intro hoare_bnd [OF pre [unfolded stable_def]]
          hoare_bnd [OF stable_refs(5) [unfolded stable_def]]
          hoare_bnd [OF stable_refs(4) [unfolded stable_def]]
          hoare_bnd [OF stable_refs(1) [unfolded stable_def]]
          hoare_bnd [OF tr [unfolded stable_def]] last)
qed

lemma ref_stored_fresh:
  "is_uuid i \<Longrightarrow>
     ref_stored jobId (AList.update (screenshot_key jobId i) v kv) (screenshot_path jobId i)"
  by (auto simp: ref_stored_def update_conv')

lemma on_failure_refs:
  "hoare (refs_stored jobId) (on_failure e jobId startTime error)
     (\<lambda>r s. \<forall>p \<in> screenshot_refs r. ref_stored jobId (artifacts s) p)
     (\<lambda>s. True)"
  if ids: "\<forall>n. is_uuid (uuid e n)"
proof -
  let ?I = "refs_stored jobId"
  let ?R = "\<lambda>v s. \<forall>p. v = Some p \<longrightarrow> ref_stored jobId (artifacts s) p"
  have shot: "hoare ?I
         (try_catch
            (\<lambda>s. if r_page s then
                    bnd (page_screenshot e) (\<lambda>screenshotBuffer.
                    bnd (randomUUID e) (\<lambda>screenshotId.
                    bnd (storeScreenshot e jobId screenshotId screenshotBuffer) (\<lambda>_.
                    ret (Some (screenshot_path jobId screenshotId))))) s
                  else (Inr None, s))
            (\<lambda>screenshotError. ret None)) ?R (\<lambda>s. True)"
    by (rule hoareI)
       (auto simp: try_catch_def bnd_def ret_def page_screenshot_def randomUUID_def
             storeScreenshot_def artifacts_put_def logged_def ids
             intro: ref_stored_fresh
             split: sum.splits option.splits prod.splits if_splits)
  have close: "hoare (?R v)
         (\<lambda>s. if r_browser s then catch_value (call_ext e BrowserClose) () s else (Inr (), s))
         (\<lambda>u. ?R v) (\<lambda>s. True)" for v
    by (rule hoareI)
       (auto simp: catch_value_def call_ext_def logged_def
             split: sum.splits option.splits if_splits)
  have now: "hoare (?R v) (date_now e) (\<lambda>t. ?R v) (\<lambda>s. True)" for v
    by (rule hoareI) (auto simp: date_now_def)
  have last: "hoare (?R v) (\<lambda>s.
       (Inr \<lparr>res_status = Fail, res_duration = d, res_timestamp = ts,
             res_statistics = None,
             res_error = Some \<lparr>err_message = msg, err_stack = stk, err_screenshot = v\<rparr>,
             res_trace = Some (r_trace s)\<rparr>, s))
     (\<lambda>r s. \<forall>p \<in> screenshot_refs r. ref_stored jobId (artifacts s) p) (\<lambda>s. True)"
    for v d ts msg stk
    by (rule hoareI) (auto simp: screenshot_refs_def split: option.splits)
  have start: "hoare ?I (date_now e) (\<lambda>t. ?I) (\<lambda>s. True)"
    by (rule hoareI) (auto simp: date_now_def refs_stored_def)
  show ?thesis
    unfolding on_failure_def
    by (intro hoare_bnd [OF start] hoare_bnd [OF shot] hoare_bnd [OF close] hoare_bnd [OF now] last)
qed

lemma sequence_body_refs:
  assumes ids: "\<forall>n. is_uuid (uuid e n)"
  shows "hoare (refs_stored jobId) (sequence_body e jobId config)
           (\<lambda>r s. \<forall>p \<in> screenshot_refs r. ref_stored jobId (artifacts s) p)
           (\<lambda>s. True)"
proof -
  let ?I = "refs_stored jobId"
  let ?Q = "\<lambda>r s. \<forall>p \<in> screenshot_refs r. ref_stored jobId (artifacts s) p"
  have flag: "stable ?I (modify g)"
    if "\<And>s. artifacts (g s) = artifacts s \<and> r_screenshots (g s) = r_screenshots s"
    for g :: "rstate \<Rightarrow> rstate"
    using that by (intro stable_modify) (simp add: refs_stored_def)
  have tracing: "stable ?I (if generateTrace config then call_ext e TracingStart else ret ())"
    by (simp add: stable_refs stable_ret)
  have body: "hoare ?I
       (bnd (call_ext e Launch) (\<lambda>_.
        bnd (modify (\<lambda>s. s\<lparr>r_browser := True\<rparr>)) (\<lambda>_.
        bnd (call_ext e (NewPage (page_viewport config) (page_userAgent config))) (\<lambda>_.
        bnd (modify (\<lambda>s. s\<lparr>r_page := True\<rparr>)) (\<lambda>_.
        bnd (if generateTrace config then call_ext e TracingStart else ret ()) (\<lambda>_.
        bnd (call_ext e (SetDefaultTimeout (default_timeout config))) (\<lambda>_.
        bnd (run_actions e jobId (cfg_actions config)) (\<lambda>_.
        finish e jobId config startTime)))))))) ?Q ?I" for startTime
    by (intro hoare_bnd [OF stable_refs(1) [unfolded stable_def]]
          hoare_bnd [OF flag [unfolded stable_def]]
          hoare_bnd [OF tracing [unfolded stable_def]]
          hoare_bnd [OF run_actions_refs [OF ids, unfolded stable_def]]
          finish_refs) simp_all
  have start: "hoare ?I (date_now e) (\<lambda>t. ?I) (\<lambda>s. True)"
    by (rule hoareI) (auto simp: date_now_def refs_stored_def)
  show ?thesis
    unfolding sequence_body_def
    by (intro hoare_bnd [OF start] hoare_try_catch [OF body] on_failure_refs [OF ids])
qed

lemma runner_refs:
  fixes s :: "'z world_scheme"
  assumes ids: "\<forall>n. is_uuid (uuid e n)"
      and run: "executePlaywrightSequence e jobId config s = (Inr r, s')"
      and p: "p \<in> screenshot_refs r"
  shows "ref_stored jobId (artifacts s') p"
proof -
  obtain x sr where sb: "sequence_body e jobId config (enter s) = (x, sr)"
    by (cases "sequence_body e jobId config (enter s)")
  then have x: "x = Inr r" and s': "s' = leave s sr"
    using run by (simp_all add: executePlaywrightSequence_def)
  have "refs_stored jobId (enter s)"
    by (simp add: refs_stored_def enter_def)
  from hoareD [OF sequence_body_refs [OF ids] this sb]
  have "ref_stored jobId (artifacts sr) p" using x p by simp
  then show ?thesis using s' by (simp add: leave_def)
qed

lemma get_screenshot_found:
  fixes s :: server
  assumes "is_uuid jobId" and "is_uuid i"
      and "map_of (artifacts s) (screenshot_key jobId i) = Some img"
      and "eff e (tick s) (KvGet ARTIFACTS_KV (screenshot_key jobId i)) = None"
  shows "fst (serve e GET (screenshot_path jobId i) s) = (200, BinaryBody img ''image/png'')"
proof -
  have key: "''screenshot:'' @ jobId @ '':'' @ (i @ ''.png'') = screenshot_key jobId i"
    by (simp add: screenshot_key_def)
  show ?thesis
    unfolding serve_def route_screenshot [OF assms(1,2)]
    using assms(3,4)
    by (simp add: onError_def get_screenshot_def key artifacts_get_def bnd_def ret_def
          del: append_assoc append.simps)
qed

lemma get_screenshot_never_404:
  fixes s :: server
  assumes "is_uuid jobId" and "is_uuid i"
      and "map_of (artifacts s) (screenshot_key jobId i) = Some img"
  shows "fst (fst (serve e GET (screenshot_path jobId i) s)) \<noteq> 404"
proof -
  have key: "''screenshot:'' @ jobId @ '':'' @ (i @ ''.png'') = screenshot_key jobId i"
    by (simp add: screenshot_key_def)
  show ?thesis
    unfolding serve_def route_screenshot [OF assms(1,2)]
    using assms(3)
    by (simp add: onError_def get_screenshot_def key artifacts_get_def bnd_def ret_def
          del: append_assoc append.simps split: option.splits)
qed

lemma storeScreenshot_stores:
  "storeScreenshot e jobId i b s = (Inr k, s') \<Longrightarrow>
     k = screenshot_key jobId i \<and> map_of (artifacts s') k = Some b"
  by (auto simp: storeScreenshot_def bnd_def ret_def artifacts_put_def logged_def update_conv'
        split: option.splits)

text \<open>
  C9. Every screenshot reference of a returned result (an entry of
  \<open>statistics.screenshots\<close> or \<open>error.screenshot\<close>) is the path of a screenshot
  identifier of the job; the route matches that path with the job identifier and the
  identifier followed by \<open>.png\<close>, from which the handler derives exactly the key that
  \<open>storeScreenshot\<close> writes; the key holds a blob when the run returns, so the
  endpoint never answers 404 for the path, and it answers 200 with the blob whenever
  its read of the namespace is not rejected. What \<open>storeScreenshot\<close> writes under
  the key is the image it was given.
\<close>

theorem screenshot_reference_roundtrip:
  fixes s s' :: server
  assumes "is_uuid jobId" and "\<forall>n. is_uuid (uuid e n)"
      and "executePlaywrightSequence e jobId config s = (Inr r, s')"
      and "p \<in> screenshot_refs r"
  shows "\<exists>i img.
           is_uuid i \<and> p = screenshot_path jobId i \<and>
           route_of GET p = RouteGetScreenshot jobId (i @ ''.png'') \<and>
           ''screenshot:'' @ jobId @ '':'' @ (i @ ''.png'') = screenshot_key jobId i \<and>
           map_of (artifacts s') (screenshot_key jobId i) = Some img \<and>
           (\<forall>b (w :: world) k w'.
              storeScreenshot e jobId i b w = (Inr k, w') \<longrightarrow>
              k = screenshot_key jobId i \<and> map_of (artifacts w') k = Some b) \<and>
           (\<forall>e' s'' :: server.
              artifacts s'' = artifacts s' \<longrightarrow>
              fst (fst (serve e' GET p s'')) \<noteq> 404 \<and>
              (eff e' (tick s'') (KvGet ARTIFACTS_KV (screenshot_key jobId i)) = None \<longrightarrow>
               fst (serve e' GET p s'') = (200, BinaryBody img ''image/png'')))"
proof -
  from runner_refs [OF assms(2,3,4)]
  obtain i img where i: "is_uuid i" and p: "p = screenshot_path jobId i"
    and img: "map_of (artifacts s') (screenshot_key jobId i) = Some img"
    by (auto simp: ref_stored_def)
  have "route_of GET p = RouteGetScreenshot jobId (i @ ''.png'')"
    using route_screenshot [OF assms(1) i] p by simp
  moreover have "''screenshot:'' @ jobId @ '':'' @ (i @ ''.png'') = screenshot_key jobId i"
    by (simp add: screenshot_key_def)
  moreover have "k = screenshot_key jobId i \<and> map_of (artifacts w') k = Some b"
    if "storeScreenshot e jobId i b w = (Inr k, w')" for b k and w w' :: world
    using storeScreenshot_stores [OF that] .
  moreover have "fst (serve e' GET p s'') = (200, BinaryBody img ''image/png'')"
    if "artifacts s'' = artifacts s'"
       "eff e' (tick s'') (KvGet ARTIFACTS_KV (screenshot_key jobId i)) = None"
    for e' and s'' :: server
    using get_screenshot_found [OF assms(1) i, of s'' img e'] that img p by simp
  moreover have "fst (fst (serve e' GET p s'')) \<noteq> 404"
    if "artifacts s'' = artifacts s'" for e' and s'' :: server
    using get_screenshot_never_404 [OF assms(1) i, of s'' img e'] that img p by simp
  ultimately show ?thesis using i p img by blast
qed

lemma quiet_ids: "\<forall>n. is_uuid (uuid quiet n)"
proof -
  have "is_uuid the_shot_id"
    by (simp add: the_shot_id_def is_uuid_def is_hex_def)
  then show ?thesis using the_job_id_uuid by simp
qed

lemma quiet_screenshot_run:
  "\<not> isl (fst (executePlaywrightSequence quiet the_job_id screenshot_job fresh)) \<and>
   map_option st_screenshots
     (res_statistics (projr (fst (executePlaywrightSequence quiet the_job_id screenshot_job fresh))))
     = Some [screenshot_path the_job_id the_shot_id]"
  by (simp add: prog_defs ext_defs runner_defs input_defs cong: prod.case_cong_weak)

lemma quiet_screenshot_artifacts:
  "artifacts (snd (executePlaywrightSequence quiet the_job_id screenshot_job fresh))
     = [(screenshot_key the_job_id the_shot_id, png_bytes), (trace_key the_job_id, zip_bytes)]"
  by (simp add: prog_defs ext_defs runner_defs input_defs cong: prod.case_cong_weak)

theorem screenshot_reference_roundtrip_witness:
  "is_uuid the_job_id \<and> (\<forall>n. is_uuid (uuid quiet n)) \<and>
   screenshot_path the_job_id the_shot_id
     \<in> screenshot_refs (projr (fst (executePlaywrightSequence quiet the_job_id screenshot_job fresh))) \<and>
   fst (serve quiet GET (screenshot_path the_job_id the_shot_id)
          (snd (executePlaywrightSequence quiet the_job_id screenshot_job fresh)))
     = (200, BinaryBody png_bytes ''image/png'')"
proof -
  let ?X = "executePlaywrightSequence quiet the_job_id screenshot_job fresh"
  let ?p = "screenshot_path the_job_id the_shot_id"
  have run: "?X = (Inr (projr (fst ?X)), snd ?X)"
    using quiet_screenshot_run by (cases ?X) (auto simp: isl_def)
  have mem: "?p \<in> screenshot_refs (projr (fst ?X))"
    using quiet_screenshot_run by (auto simp: screenshot_refs_def split: option.splits)
  from screenshot_reference_roundtrip [OF the_job_id_uuid quiet_ids run mem]
  obtain i img where p: "?p = screenshot_path the_job_id i"
    and img: "map_of (artifacts (snd ?X)) (screenshot_key the_job_id i) = Some img"
    and served: "\<forall>e' s'' :: server.
              artifacts s'' = artifacts (snd ?X) \<longrightarrow>
              fst (fst (serve e' GET ?p s'')) \<noteq> 404 \<and>
              (eff e' (tick s'') (KvGet ARTIFACTS_KV (screenshot_key the_job_id i)) = None \<longrightarrow>
               fst (serve e' GET ?p s'') = (200, BinaryBody img ''image/png''))"
    by blast
  have "i = the_shot_id" using p by (simp add: screenshot_path_def)
  then have "img = png_bytes" using img quiet_screenshot_artifacts by simp
  moreover have "fst (serve quiet GET ?p (snd ?X)) = (200, BinaryBody img ''image/png'')"
    using served by simp
  ultimately show ?thesis using the_job_id_uuid quiet_ids mem by simp
qed


section \<open>What the action loop records\<close>

text \<open>
  The failing inputs of C4 and C6 are the only way in which the loop loses a step: it
  appends one successful step per action that succeeds and, when an action fails, one
  failed step carrying that error's message, unless the artifact namespace rejects the
  write of the diagnostic screenshot.
\<close>

lemmas keeps_steps =
  keeps_external [where f = "\<lambda>s :: rstate. tr_steps (r_trace s)", simplified]

lemma exec_action_keeps_steps:
  "keeps (\<lambda>s. tr_steps (r_trace s)) (exec_action e jobId a nav)"
  unfolding exec_action_def
  by (cases "a_type a")
     (auto intro!: keeps_bnd keeps_ret keeps_modify keeps_steps split: option.splits)

lemma step_failed_steps:
  assumes "step_failed e jobId a stepStart error s = (r, s')"
  shows "(r = Inl error \<and>
          (\<exists>st. tr_steps (r_trace s') = tr_steps (r_trace s) @ [st] \<and> \<not> step_success st \<and>
                step_error st = Some (message_or ''Unknown error'' error))) \<or>
         (isl r \<and> tr_steps (r_trace s') = tr_steps (r_trace s) \<and>
          (\<exists>n k. eff e n (KvPut ARTIFACTS_KV k) \<noteq> None))"
  using assms
  by (auto simp: step_failed_def prog_defs date_now_def page_screenshot_def randomUUID_def
        storeScreenshot_def artifacts_put_def push_step_def logged_def
        split: sum.splits option.splits prod.splits)

lemma run_step_steps:
  assumes run: "run_step e jobId a s = (r, s')"
  shows "(r = Inr () \<and>
          (\<exists>st. tr_steps (r_trace s') = tr_steps (r_trace s) @ [st] \<and> step_success st)) \<or>
         (isl r \<and>
          (\<exists>st. tr_steps (r_trace s') = tr_steps (r_trace s) @ [st] \<and> \<not> step_success st)) \<or>
         (isl r \<and> tr_steps (r_trace s') = tr_steps (r_trace s) \<and>
          (\<exists>n k. eff e n (KvPut ARTIFACTS_KV k) \<noteq> None))"
proof -
  obtain t0 s0 where 0: "date_now e s = (Inr t0, s0)" by (simp add: date_now_def)
  have "\<exists>nav s1.
    (if a_type a = Goto then bnd (date_now e) (\<lambda>t. ret (Some t)) else ret None) s0 = (Inr nav, s1)
    \<and> r_trace s1 = r_trace s0"
    by (simp add: bnd_def ret_def date_now_def)
  then obtain nav s1 where 1:
    "(if a_type a = Goto then bnd (date_now e) (\<lambda>t. ret (Some t)) else ret None) s0 = (Inr nav, s1)"
    and t1: "r_trace s1 = r_trace s0"
    by blast
  have t0: "r_trace s0 = r_trace s" using 0 by (auto simp: date_now_def)
  obtain x s2 where 2: "exec_action e jobId a nav s1 = (x, s2)"
    by (cases "exec_action e jobId a nav s1")
  have t2: "tr_steps (r_trace s2) = tr_steps (r_trace s)"
    using keepsD [OF exec_action_keeps_steps 2] t1 t0 by simp
  show ?thesis
  proof (cases x)
    case (Inl error)
    then have "step_failed e jobId a t0 error s2 = (r, s')"
      using run 0 1 2 by (simp add: run_step_def bnd_def try_catch_def)
    from step_failed_steps [OF this] show ?thesis
      using t2 by (auto simp: isl_def)
  next
    case (Inr u)
    then have "r = Inr () \<and>
               (\<exists>st. tr_steps (r_trace s') = tr_steps (r_trace s2) @ [st] \<and> step_success st)"
      using run 0 1 2
      by (auto simp: run_step_def bnd_def try_catch_def date_now_def push_step_def modify_def)
    then show ?thesis using t2 by simp
  qed
qed

lemma run_actions_steps:
  "run_actions e jobId as s = (r, s') \<Longrightarrow>
     \<exists>new. tr_steps (r_trace s') = tr_steps (r_trace s) @ new \<and>
       (case r of
          Inr u \<Rightarrow> map step_success new = replicate (length as) True
        | Inl t \<Rightarrow>
            (\<exists>k < length as.
               map step_success new = replicate k True @ [False] \<or>
               (map step_success new = replicate k True \<and>
                (\<exists>n key. eff e n (KvPut ARTIFACTS_KV key) \<noteq> None))))"
proof (induction as arbitrary: s)
  case Nil
  then show ?case by auto
next
  case (Cons a as)
  obtain x s1 where st: "run_step e jobId a s = (x, s1)" by (cases "run_step e jobId a s")
  from run_step_steps [OF st] consider
    (ok) st where "x = Inr ()" "tr_steps (r_trace s1) = tr_steps (r_trace s) @ [st]" "step_success st"
  | (failed) st where "isl x" "tr_steps (r_trace s1) = tr_steps (r_trace s) @ [st]" "\<not> step_success st"
  | (lost) "isl x" "tr_steps (r_trace s1) = tr_steps (r_trace s)"
           "\<exists>n k. eff e n (KvPut ARTIFACTS_KV k) \<noteq> None"
    by blast
  then show ?case
  proof cases
    case ok
    then have rest: "run_actions e jobId as s1 = (r, s')" using Cons.prems st by simp
    from Cons.IH [OF rest] obtain new where
      new: "tr_steps (r_trace s') = tr_steps (r_trace s1) @ new"
      and shape: "case r of
          Inr u \<Rightarrow> map step_success new = replicate (length as) True
        | Inl t \<Rightarrow>
            (\<exists>k < length as.
               map step_success new = replicate k True @ [False] \<or>
               (map step_success new = replicate k True \<and>
                (\<exists>n key. eff e n (KvPut ARTIFACTS_KV key) \<noteq> None)))"
      by blast
    have "tr_steps (r_trace s') = tr_steps (r_trace s) @ (st # new)"
      using new ok by simp
    moreover have "case r of
          Inr u \<Rightarrow> map step_success (st # new) = replicate (length (a # as)) True
        | Inl t \<Rightarrow>
            (\<exists>k < length (a # as).
               map step_success (st # new) = replicate k True @ [False] \<or>
               (map step_success (st # new) = replicate k True \<and>
                (\<exists>n key. eff e n (KvPut ARTIFACTS_KV key) \<noteq> None)))"
    proof (cases r)
      case (Inr u)
      then show ?thesis using shape ok by simp
    next
      case (Inl t)
      then obtain k where "k < length as"
        "map step_success new = replicate k True @ [False] \<or>
               (map step_success new = replicate k True \<and>
                (\<exists>n key. eff e n (KvPut ARTIFACTS_KV key) \<noteq> None))"
        using shape by auto
      then have "Suc k < length (a # as) \<and>
        (map step_success (st # new) = replicate (Suc k) True @ [False] \<or>
               (map step_success (st # new) = replicate (Suc k) True \<and>
                (\<exists>n key. eff e n (KvPut ARTIFACTS_KV key) \<noteq> None)))"
        using ok by auto
      then show ?thesis using Inl by (simp del: replicate_Suc) blast
    qed
    ultimately show ?thesis by blast
  next
    case failed
    then obtain t where "r = Inl t" "s' = s1"
      using Cons.prems st by (cases x) auto
    then show ?thesis using failed
      by (intro exI [of _ "[st]"]) (auto intro: exI [of _ 0])
  next
    case lost
    then obtain t where "r = Inl t" "s' = s1"
      using Cons.prems st by (cases x) auto
    then show ?thesis using lost
      by (intro exI [of _ "[]"]) (auto intro: exI [of _ 0])
  qed
qed


section \<open>The runner always returns a result\<close>

text \<open>
  Whatever the environment does, \<open>executePlaywrightSequence\<close> returns a result and
  never throws: the outer \<open>catch\<close> turns every throw into a fail result.
\<close>

lemma runner_returns: "\<exists>r. fst (executePlaywrightSequence e jobId config s) = Inr r"
proof -
  obtain startTime s1 where 1: "date_now e (enter s) = (Inr startTime, s1)"
    by (simp add: date_now_def)
  let ?body = "bnd (call_ext e Launch) (\<lambda>_.
        bnd (modify (\<lambda>s. s\<lparr>r_browser := True\<rparr>)) (\<lambda>_.
        bnd (call_ext e (NewPage (page_viewport config) (page_userAgent config))) (\<lambda>_.
        bnd (modify (\<lambda>s. s\<lparr>r_page := True\<rparr>)) (\<lambda>_.
        bnd (if generateTrace config then call_ext e TracingStart else ret ()) (\<lambda>_.
        bnd (call_ext e (SetDefaultTimeout (default_timeout config))) (\<lambda>_.
        bnd (run_actions e jobId (cfg_actions config)) (\<lambda>_.
        finish e jobId config startTime)))))))"
  obtain x s2 where b: "?body s1 = (x, s2)" by (cases "?body s1")
  have "\<exists>r. fst (try_catch ?body (on_failure e jobId startTime) s1) = Inr r"
  proof (cases x)
    case (Inl t)
    then show ?thesis
      using b on_failure_result [of e jobId startTime t s2] by (auto simp: try_catch_def)
  next
    case (Inr r)
    then show ?thesis using b by (simp add: try_catch_def)
  qed
  then have "\<exists>r. fst (sequence_body e jobId config (enter s)) = Inr r"
    using 1 by (simp add: sequence_body_def bnd_def)
  then show ?thesis
    by (auto simp: executePlaywrightSequence_def split: prod.splits)
qed


end
